theory Spec2Isabelle
  imports Complex_Main "HOL-Library.Multiset"
begin

section \<open>Python and numpy primitives used by clifford\_training\_data.py\<close>

text \<open>
  Angles are Python floats in the source; they are modelled as real numbers, so rounding
  error, infinities and NaN are outside the model. Exceptions are values: every function
  that can raise returns \<open>error + 'a\<close>.
\<close>

datatype error =
    ValueError
  | IndexError
  | TypeError
  | OptionsException
  | MethodSelectException
  | MethodReplaceException

text \<open>
  The two global random generators the module draws from (Python's \<open>random\<close> and
  \<open>numpy.random\<close>) are one explicit state: a stream of raw draws for each generator
  and the position reached in it. Every primitive that samples advances a position, so
  "no sampling occurred" is "the state is unchanged".
\<close>

record rng =
  py_draws :: "nat \<Rightarrow> nat"
  py_pos :: nat
  np_draws :: "nat \<Rightarrow> real"
  np_pos :: nat

type_synonym 'a rand = "rng \<Rightarrow> (error + 'a) \<times> rng"

definition ret :: "'a \<Rightarrow> 'a rand" where
  "ret x r = (Inr x, r)"

definition raise :: "error \<Rightarrow> 'a rand" where
  "raise e r = (Inl e, r)"

definition bind :: "'a rand \<Rightarrow> ('a \<Rightarrow> 'b rand) \<Rightarrow> 'b rand" where
  "bind m f r = (case m r of (Inl e, r') \<Rightarrow> (Inl e, r') | (Inr x, r') \<Rightarrow> f x r')"

text \<open>\<open>random.Random._randbelow(n)\<close>: one draw, reduced below \<open>n\<close>.\<close>

definition randbelow :: "nat \<Rightarrow> rng \<Rightarrow> nat \<times> rng" where
  "randbelow n r = (py_draws r (py_pos r) mod n, r\<lparr>py_pos := Suc (py_pos r)\<rparr>)"

text \<open>\<open>random.choice(seq)\<close> is \<open>seq[randbelow(len(seq))]\<close>; IndexError on an empty sequence.\<close>

definition choice :: "'a list \<Rightarrow> 'a rand" where
  "choice xs r =
     (if xs = [] then (Inl IndexError, r)
      else (case randbelow (length xs) r of (j, r') \<Rightarrow> (Inr (xs ! j), r')))"

text \<open>\<open>random.randint(a, b)\<close> is \<open>a + randbelow(b - a + 1)\<close>.\<close>

definition randint :: "int \<Rightarrow> int \<Rightarrow> int rand" where
  "randint a b r =
     (if b < a then (Inl ValueError, r)
      else (case randbelow (nat (b - a + 1)) r of (j, r') \<Rightarrow> (Inr (a + int j), r')))"

text \<open>Python's float \<open>%\<close>: the result has the sign of the divisor.\<close>

definition py_mod :: "real \<Rightarrow> real \<Rightarrow> real" where
  "py_mod x y = x - y * of_int \<lfloor>x / y\<rfloor>"

text \<open>\<open>int(x)\<close> on a float truncates towards zero.\<close>

definition py_int :: "real \<Rightarrow> int" where
  "py_int x = (if 0 \<le> x then \<lfloor>x\<rfloor> else \<lceil>x\<rceil>)"

text \<open>\<open>numpy.round\<close> rounds to the nearest integer, halves to the even neighbour.\<close>

definition np_round :: "real \<Rightarrow> int" where
  "np_round x =
     (let f = \<lfloor>x\<rfloor>; d = x - of_int f
      in if d < 1 / 2 then f
         else if 1 / 2 < d then f + 1
         else if even f then f else f + 1)"

text \<open>Indexing a tuple or list with a Python int: negative indices count from the end.\<close>

definition py_index :: "'a list \<Rightarrow> int \<Rightarrow> error + 'a" where
  "py_index xs i =
     (if 0 \<le> i \<and> i < int (length xs) then Inr (xs ! nat i)
      else if i < 0 \<and> - int (length xs) \<le> i then Inr (xs ! nat (int (length xs) + i))
      else Inl IndexError)"

text \<open>
  \<open>numpy.vectorize(f)\<close> with no \<open>otypes\<close>, called on an array: on a size-0 input it
  raises ValueError ("cannot call `vectorize` on size 0 inputs unless `otypes` is set");
  otherwise it first calls \<open>f\<close> on the first element to learn the output type, discards
  that result, and then calls \<open>f\<close> on every element in order.
\<close>

fun map_rand :: "('a \<Rightarrow> 'b rand) \<Rightarrow> 'a list \<Rightarrow> 'b list rand" where
  "map_rand f [] r = (Inr [], r)"
| "map_rand f (x # xs) r =
     (case f x r of
        (Inl e, r') \<Rightarrow> (Inl e, r')
      | (Inr y, r') \<Rightarrow>
          (case map_rand f xs r' of
             (Inl e, r'') \<Rightarrow> (Inl e, r'')
           | (Inr ys, r'') \<Rightarrow> (Inr (y # ys), r'')))"

definition np_vectorize :: "('a \<Rightarrow> 'b rand) \<Rightarrow> 'a list \<Rightarrow> 'b list rand" where
  "np_vectorize f xs r =
     (case xs of
        [] \<Rightarrow> (Inl ValueError, r)
      | x # _ \<Rightarrow>
          (case f x r of
             (Inl e, r') \<Rightarrow> (Inl e, r')
           | (Inr _, r') \<Rightarrow> map_rand f xs r'))"

text \<open>A vectorized function called on a scalar sees a 0-d array of size 1.\<close>

definition np_vectorize_scalar :: "('a \<Rightarrow> 'b rand) \<Rightarrow> 'a \<Rightarrow> 'b rand" where
  "np_vectorize_scalar f x r =
     (case np_vectorize f [x] r of
        (Inl e, r') \<Rightarrow> (Inl e, r')
      | (Inr ys, r') \<Rightarrow> (case ys of [] \<Rightarrow> (Inl ValueError, r') | y # _ \<Rightarrow> (Inr y, r')))"

section \<open>The Clifford angle oracle\<close>

definition CLIFFORD_ANGLES :: "real list" where
  "CLIFFORD_ANGLES = [0, pi / 2, pi, (3 / 2) * pi]"

text \<open>The body of \<open>_closest_clifford\<close> (before the module rebinds the name to its vectorized form).\<close>

definition closest_clifford_body :: "real \<Rightarrow> real rand" where
  "closest_clifford_body ang0 r =
     (let ang = py_mod ang0 (2 * pi);
          ang_scaled = ang / (pi / 2)
      in if \<bar>ang_scaled / (1 / 2) - 1\<bar> > 1 / 10 ^ 6
            \<and> \<bar>ang_scaled / (1 / 2) - 3\<bar> > 1 / 10 ^ 6
            \<and> \<bar>ang_scaled / (1 / 2) - 5\<bar> > 1 / 10 ^ 6
         then (py_index CLIFFORD_ANGLES (np_round ang_scaled mod 4), r)
         else (case choice [ang_scaled - 1 / 2, ang_scaled + 1 / 2] r of
                 (Inl e, r') \<Rightarrow> (Inl e, r')
               | (Inr x, r') \<Rightarrow> (py_index CLIFFORD_ANGLES (py_int x), r')))"

text \<open>
  The body of \<open>_is_clifford_angle\<close>. Its call of \<open>_closest_clifford\<close> happens after the
  rebinding, so it reaches the vectorized function with a scalar.
\<close>

definition is_clifford_angle_body :: "real \<Rightarrow> real \<Rightarrow> bool rand" where
  "is_clifford_angle_body tol ang0 r =
     (let ang = py_mod ang0 (2 * pi)
      in case np_vectorize_scalar closest_clifford_body ang r of
           (Inl e, r') \<Rightarrow> (Inl e, r')
         | (Inr closest_clifford_angle, r') \<Rightarrow>
             (Inr (\<bar>closest_clifford_angle - ang\<bar> < tol), r'))"

definition default_tol :: real where
  "default_tol = 1 / 10 ^ 5"

text \<open>The body of \<open>_random_clifford\<close>: the angle is ignored.\<close>

definition random_clifford_body :: "real option \<Rightarrow> real rand" where
  "random_clifford_body ang r =
     (case randint 0 3 r of
        (Inl e, r') \<Rightarrow> (Inl e, r')
      | (Inr random_index, r') \<Rightarrow> (py_index CLIFFORD_ANGLES random_index, r'))"

subsection \<open>Distances to the four Clifford phase gates\<close>

type_synonym cmat = "complex list list"

text \<open>\<open>S ** i\<close> on a numpy array is the elementwise power.\<close>

definition mat_elem_pow :: "cmat \<Rightarrow> nat \<Rightarrow> cmat" where
  "mat_elem_pow M n = map (map (\<lambda>z. z ^ n)) M"

definition mat_sub :: "cmat \<Rightarrow> cmat \<Rightarrow> cmat" where
  "mat_sub A B = map2 (map2 (\<lambda>a b. a - b)) A B"

text \<open>\<open>np.linalg.norm\<close> of a matrix: the Frobenius norm.\<close>

definition linalg_norm :: "cmat \<Rightarrow> real" where
  "linalg_norm M = sqrt (sum_list (map (\<lambda>z. (cmod z)\<^sup>2) (concat M)))"

text \<open>
  The loop \<open>for i in range(4)\<close> that \<open>_angle_to_probabilities\<close> and
  \<open>_probabilistic_angle_to_clifford\<close> both contain: the list \<open>dists\<close> it builds.
\<close>

definition dists_loop :: "real \<Rightarrow> real \<Rightarrow> real list" where
  "dists_loop ang0 sigma =
     (let angle = py_mod ang0 (2 * pi);
          S = [[1, 0], [0, \<i>]];
          Rz = [[1, 0], [0, exp (complex_of_real angle * \<i>)]]
      in map (\<lambda>i::nat.
                let i' = (if i = 0 then 4 else i);
                    diff = linalg_norm (mat_sub Rz (mat_elem_pow S i'))
                in exp (- ((diff / sigma)\<^sup>2)))
             [0, 1, 2, 3])"

text \<open>
  The body of \<open>_angle_to_probabilities\<close>: it returns \<open>sum(dists)\<close>. Over the reals
  every summand is positive; in the program's doubles a summand can underflow to 0.0 for a small
  \<open>sigma\<close>, so no property below depends on the sign or size of the sum.
\<close>

definition angle_to_probabilities_body :: "real \<Rightarrow> real \<Rightarrow> real" where
  "angle_to_probabilities_body angle sigma = sum_list (dists_loop angle sigma)"

text \<open>
  The operation as the specification words it: four weights, one per Clifford phase gate
  \<open>S^k\<close> (\<open>k = 1..4\<close>), each \<open>exp(-(d/\<sigma>)^2)\<close> with \<open>d\<close> the distance between
  \<open>diag(1, e^{i\<theta>})\<close> and \<open>diag(1, i^k)\<close>.
\<close>

definition clifford_distance :: "real \<Rightarrow> nat \<Rightarrow> real" where
  "clifford_distance theta k = cmod (cis theta - \<i> ^ k)"

definition spec_angle_distance_weights :: "real \<Rightarrow> real \<Rightarrow> real list" where
  "spec_angle_distance_weights theta sigma =
     map (\<lambda>k. exp (- ((clifford_distance theta k / sigma)\<^sup>2))) [1, 2, 3, 4]"

section \<open>Sampling primitives\<close>

definition remove_nth :: "nat \<Rightarrow> 'a list \<Rightarrow> 'a list" where
  "remove_nth j xs = take j xs @ drop (Suc j) xs"

text \<open>
  \<open>random.sample(population, k)\<close>: ValueError when \<open>k\<close> is negative or larger than the
  population; otherwise \<open>k\<close> successive draws from a shrinking pool, without replacement.
\<close>

fun sample_pool :: "'a list \<Rightarrow> nat \<Rightarrow> 'a list rand" where
  "sample_pool pool 0 r = (Inr [], r)"
| "sample_pool pool (Suc k) r =
     (if pool = [] then (Inl ValueError, r)
      else (case randbelow (length pool) r of
              (j, r') \<Rightarrow>
                (case sample_pool (remove_nth j pool) k r' of
                   (Inl e, r'') \<Rightarrow> (Inl e, r'')
                 | (Inr xs, r'') \<Rightarrow> (Inr (pool ! j # xs), r''))))"

definition sample :: "'a list \<Rightarrow> int \<Rightarrow> 'a list rand" where
  "sample population k r =
     (if k < 0 \<or> int (length population) < k then (Inl ValueError, r)
      else sample_pool population (nat k) r)"

text \<open>One uniform variate in \<open>[0, 1)\<close> from numpy's generator.\<close>

definition np_uniform :: "rng \<Rightarrow> real \<times> rng" where
  "np_uniform r = (frac (np_draws r (np_pos r)), r\<lparr>np_pos := Suc (np_pos r)\<rparr>)"

text \<open>Inverse-CDF lookup: the first position whose cumulative weight exceeds \<open>u\<close>.\<close>

fun weighted_index :: "real list \<Rightarrow> real \<Rightarrow> nat" where
  "weighted_index [] u = 0"
| "weighted_index [w] u = 0"
| "weighted_index (w # ws) u = (if u < w then 0 else Suc (weighted_index ws (u - w)))"

fun choice_pool :: "('a \<times> real) list \<Rightarrow> nat \<Rightarrow> 'a list rand" where
  "choice_pool pool 0 r = (Inr [], r)"
| "choice_pool pool (Suc k) r =
     (if pool = [] then (Inl ValueError, r)
      else (case np_uniform r of
              (u, r') \<Rightarrow>
                (let j = weighted_index (map snd pool) (u * sum_list (map snd pool))
                 in case choice_pool (remove_nth j pool) k r' of
                      (Inl e, r'') \<Rightarrow> (Inl e, r'')
                    | (Inr xs, r'') \<Rightarrow> (Inr (fst (pool ! j) # xs), r''))))"

text \<open>
  \<open>numpy.random.choice(a, size, replace=False, p=p)\<close>: ValueError on an empty population,
  a negative or too large size, or a \<open>p\<close> that is not a probability vector with enough
  non-zero entries; otherwise \<open>size\<close> weighted draws without replacement.
\<close>

definition np_random_choice :: "'a list \<Rightarrow> int \<Rightarrow> real list \<Rightarrow> 'a list rand" where
  "np_random_choice a sz p r =
     (if a = [] \<or> length p \<noteq> length a \<or> sz < 0 \<or> int (length a) < sz
         \<or> filter (\<lambda>w. w < 0) p \<noteq> [] \<or> sum_list p \<noteq> 1
         \<or> int (length (filter (\<lambda>w. 0 < w) p)) < sz
      then (Inl ValueError, r)
      else choice_pool (zip a p) (nat sz) r)"

text \<open>The body of \<open>_probabilistic_angle_to_clifford\<close>.\<close>

definition probabilistic_angle_to_clifford_body :: "real \<Rightarrow> real \<Rightarrow> real rand" where
  "probabilistic_angle_to_clifford_body ang sigma r =
     (let dists = dists_loop ang sigma;
          prob_gate = map (\<lambda>i. i / sum_list dists) dists
      in case np_random_choice CLIFFORD_ANGLES 1 prob_gate r of
           (Inl e, r') \<Rightarrow> (Inl e, r')
         | (Inr cliff_ang, r') \<Rightarrow>
             (case cliff_ang of [] \<Rightarrow> (Inl TypeError, r') | c # _ \<Rightarrow> (Inr c, r')))"

section \<open>Circuits and the gate table\<close>

type_synonym qubit = nat

text \<open>
  A cirq operation, by the gate classes the encoder tests for. The real argument is the
  gate's exponent (\<open>cirq.X\<close> is \<open>XPow 1\<close>, \<open>cirq.CNOT\<close> is \<open>CX 1\<close>; global phase shifts
  are not modelled). cirq checks a gate's arity when an operation is built, so each
  operation carries the qubits its gate needs. A circuit is the sequence
  \<open>circuit.all_operations()\<close> yields, and \<open>append\<close> adds at the end of it.
\<close>

datatype operation =
    CX real qubit qubit
  | ZPow real qubit
  | XPow real qubit
  | Measure qubit "qubit list"
  | Other "qubit list"

type_synonym circuit = "operation list"

text \<open>One column of the \<open>data\<close> array: rows order, names, parameters, qubits, operations.\<close>

record column =
  order :: nat
  name :: string
  parameter :: "real option"
  qubit :: "qubit list"
  operation :: operation

text \<open>The five lists \<open>_circuit_to_array\<close> fills in its loop.\<close>

record lists =
  order_list :: "nat list"
  gates_list :: "string list"
  parameters_list :: "real option list"
  qubits_list :: "qubit list list"
  operation_list :: "operation list"

definition add_gate :: "string \<Rightarrow> real option \<Rightarrow> qubit list \<Rightarrow> lists \<Rightarrow> lists" where
  "add_gate nm par qs l =
     l\<lparr>gates_list := gates_list l @ [nm],
       qubits_list := qubits_list l @ [qs],
       parameters_list := parameters_list l @ [par]\<rparr>"

text \<open>One iteration of the loop over \<open>enumerate(operations)\<close>.\<close>

fun encode_step :: "lists \<Rightarrow> nat \<times> operation \<Rightarrow> lists" where
  "encode_step l (i, opn) =
     (let l1 = l\<lparr>operation_list := operation_list l @ [opn], order_list := order_list l @ [i]\<rparr>
      in case opn of
           CX e q0 q1 \<Rightarrow> add_gate ''cx'' None [q0, q1] l1
         | ZPow e q \<Rightarrow> add_gate ''rz'' (Some (e * pi)) [q] l1
         | XPow e q \<Rightarrow>
             (if e \<noteq> 1 then add_gate ''rx'' (Some (pi / 2)) [q] l1
              else add_gate ''x'' None [q] l1)
         | Measure q qs \<Rightarrow> add_gate ''measure'' None [q] l1
         | Other qs \<Rightarrow> l1)"

text \<open>
  \<open>np.array([order, gates_list, parameters_list, qubits_list, operation_list])\<close>: a
  5-row table when the five lists have one length; otherwise the array is ragged (one
  dimension, five list objects) and every two-dimensional index into it raises
  IndexError.
\<close>

datatype ndarray = Table "column list" | Ragged

definition np_array :: "lists \<Rightarrow> ndarray" where
  "np_array l =
     (let n = length (order_list l)
      in if length (gates_list l) = n \<and> length (parameters_list l) = n
            \<and> length (qubits_list l) = n \<and> length (operation_list l) = n
         then Table (map (\<lambda>i. \<lparr>order = order_list l ! i, name = gates_list l ! i,
                               parameter = parameters_list l ! i, qubit = qubits_list l ! i,
                               operation = operation_list l ! i\<rparr>) [0..<n])
         else Ragged)"

definition columns_of :: "ndarray \<Rightarrow> error + column list" where
  "columns_of d = (case d of Table cs \<Rightarrow> Inr cs | Ragged \<Rightarrow> Inl IndexError)"

definition circuit_to_array :: "circuit \<Rightarrow> ndarray \<times> circuit" where
  "circuit_to_array circ =
     (let l = foldl encode_step
                \<lparr>order_list = [], gates_list = [], parameters_list = [], qubits_list = [],
                 operation_list = []\<rparr>
                (zip [0..<length circ] circ)
      in (np_array l, []))"

text \<open>One iteration of the loop of \<open>_array_to_circuit\<close>: the operations it appends.\<close>

definition rebuild :: "column \<Rightarrow> error + operation list" where
  "rebuild c =
     (if name c = ''rz'' then
        (case (parameter c, qubit c) of
           (Some p, [q]) \<Rightarrow> Inr [ZPow (p / pi) q]
         | _ \<Rightarrow> Inl TypeError)
      else if name c = ''rx'' then
        (case (parameter c, qubit c) of
           (Some p, [q]) \<Rightarrow> Inr [XPow (p / pi) q]
         | _ \<Rightarrow> Inl TypeError)
      else if name c = ''cx'' then
        (case qubit c of
           q0 # q1 # _ \<Rightarrow> Inr [CX 1 q0 q1]
         | _ \<Rightarrow> Inl IndexError)
      else if name c = ''x'' then
        (case qubit c of
           [q] \<Rightarrow> Inr [XPow 1 q]
         | _ \<Rightarrow> Inl TypeError)
      else if name c = ''measure'' then Inr [operation c]
      else Inr [])"

fun array_to_circuit :: "column list \<Rightarrow> circuit \<Rightarrow> error + circuit" where
  "array_to_circuit [] circ = Inr circ"
| "array_to_circuit (c # cs) circ =
     (case rebuild c of
        Inl e \<Rightarrow> Inl e
      | Inr ops \<Rightarrow> array_to_circuit cs (circ @ ops))"

text \<open>Boolean-mask column selection \<open>data[:, mask]\<close>.\<close>

definition select_mask :: "'a list \<Rightarrow> bool list \<Rightarrow> 'a list" where
  "select_mask xs msk = map fst (filter snd (zip xs msk))"

text \<open>
  The angles reach the vectorized functions as cells of the parameter row. A cell used as
  a float raises TypeError when it is \<open>None\<close>.
\<close>

definition on_float :: "(real \<Rightarrow> 'b rand) \<Rightarrow> real option \<Rightarrow> 'b rand" where
  "on_float f p = (case p of None \<Rightarrow> raise TypeError | Some a \<Rightarrow> f a)"

text \<open>\<open>_is_clifford_angle = np.vectorize(_is_clifford_angle)\<close>, with the default tolerance.\<close>

definition is_clifford_angle :: "real option list \<Rightarrow> bool list rand" where
  "is_clifford_angle cells =
     np_vectorize (on_float (is_clifford_angle_body default_tol)) cells"

section \<open>count\_non\_cliffords\<close>

definition count_non_cliffords :: "circuit \<Rightarrow> nat rand" where
  "count_non_cliffords circ r =
     (case columns_of (fst (circuit_to_array circ)) of
        Inl e \<Rightarrow> (Inl e, r)
      | Inr data \<Rightarrow>
          (let rz_circ_data = filter (\<lambda>c. name c = ''rz'') data
           in case is_clifford_angle (map parameter rz_circ_data) r of
                (Inl e, r') \<Rightarrow> (Inl e, r')
              | (Inr mask_cliff, r') \<Rightarrow>
                  (let mask_non_cliff = map Not mask_cliff;
                       rz_non_cliff = select_mask rz_circ_data mask_non_cliff
                   in (Inr (length rz_non_cliff), r'))))"

section \<open>Options, selection and replacement\<close>

text \<open>
  Keyword arguments collected by \<open>**additional_options\<close>: a dictionary from names to
  Python values. The values that matter here are \<open>None\<close>, a float, and a dictionary of
  floats.
\<close>

datatype pyval = PyNone | PyFloat real | PyDict "(string \<times> real) list"

type_synonym kwargs = "(string \<times> pyval) list"

text \<open>\<open>d.get(k)\<close>: \<open>None\<close> for a missing key.\<close>

definition kw_get :: "kwargs \<Rightarrow> string \<Rightarrow> pyval" where
  "kw_get kw k = (case map_of kw k of None \<Rightarrow> PyNone | Some v \<Rightarrow> v)"

definition truthy :: "pyval \<Rightarrow> bool" where
  "truthy v = (case v of PyNone \<Rightarrow> False | PyFloat x \<Rightarrow> x \<noteq> 0 | PyDict d \<Rightarrow> d \<noteq> [])"

definition defult_sigma_select :: real where
  "defult_sigma_select = 1 / 2"

definition defult_sigma_replace :: real where
  "defult_sigma_replace = 1 / 2"

text \<open>
  Lines 153 to 172 of \<open>_map_to_near_clifford\<close>: the resolution of \<open>sigma_select\<close> and
  \<open>sigma_replace\<close>. The test \<open>'sigma_select' in additional_options\<close> on a float raises
  TypeError.
\<close>

definition sigma_options :: "pyval \<Rightarrow> error + real \<times> real" where
  "sigma_options additional_options =
     (if truthy additional_options then
        (case additional_options of
           PyDict d \<Rightarrow>
             (case map_of d ''sigma_select'' of
                Some sigma_select \<Rightarrow>
                  (case map_of d ''sigma_replace'' of
                     Some sigma_replace \<Rightarrow> Inr (sigma_select, sigma_replace)
                   | None \<Rightarrow> Inr (sigma_select, defult_sigma_replace))
              | None \<Rightarrow>
                  (case map_of d ''sigma_replace'' of
                     Some sigma_replace \<Rightarrow> Inr (defult_sigma_select, sigma_replace)
                   | None \<Rightarrow> Inl OptionsException))
         | _ \<Rightarrow> Inl TypeError)
      else Inr (defult_sigma_select, defult_sigma_replace))"

definition lift :: "error + 'a \<Rightarrow> 'a rand" where
  "lift v r = (v, r)"

text \<open>\<open>_angle_to_probabilities = np.vectorize(_angle_to_probabilities)\<close>.\<close>

definition angle_to_probabilities :: "real option list \<Rightarrow> real \<Rightarrow> real list rand" where
  "angle_to_probabilities cells sigma =
     np_vectorize (on_float (\<lambda>a. ret (angle_to_probabilities_body a sigma))) cells"

text \<open>Lines 174 to 188: the choice of the columns to change.\<close>

definition select_columns ::
  "string \<Rightarrow> column list \<Rightarrow> nat \<Rightarrow> int \<Rightarrow> real \<Rightarrow> nat list rand" where
  "select_columns method_select rz_non_cliff_copy total_non_cliff N sigma_select =
     (if method_select = ''random'' then
        sample [0..<total_non_cliff] (int total_non_cliff - N)
      else if method_select = ''probabilistic'' then
        bind (angle_to_probabilities (map parameter rz_non_cliff_copy) sigma_select)
          (\<lambda>probabilities.
             let prob_choose_gate = map (\<lambda>k. k / sum_list probabilities) probabilities
             in np_random_choice [0..<total_non_cliff] (int total_non_cliff - N)
                  prob_choose_gate)
      else raise MethodSelectException)"

text \<open>Integer-array column selection \<open>data[:, idxs]\<close> and \<open>np.delete(data, idxs, axis=1)\<close>.\<close>

definition take_columns :: "'a list \<Rightarrow> nat list \<Rightarrow> error + 'a list" where
  "take_columns xs idxs =
     (if filter (\<lambda>i. \<not> i < length xs) idxs = [] then Inr (map (\<lambda>i. xs ! i) idxs)
      else Inl IndexError)"

definition np_delete :: "'a list \<Rightarrow> nat list \<Rightarrow> 'a list" where
  "np_delete xs idxs = map snd (filter (\<lambda>p. fst p \<notin> set idxs) (zip [0..<length xs] xs))"

text \<open>Lines 197 to 211: the new angles of the selected columns.\<close>

definition replace_angles :: "string \<Rightarrow> real option list \<Rightarrow> real \<Rightarrow> real list rand" where
  "replace_angles method_replace cells sigma_replace =
     (if method_replace = ''closest'' then
        np_vectorize (on_float closest_clifford_body) cells
      else if method_replace = ''random'' then
        np_vectorize random_clifford_body cells
      else if method_replace = ''probabilistic'' then
        np_vectorize (on_float (\<lambda>a. probabilistic_angle_to_clifford_body a sigma_replace)) cells
      else raise MethodReplaceException)"

text \<open>The assignment \<open>rz_non_cliff_selected[2, :] = ...\<close>.\<close>

definition set_parameters :: "column list \<Rightarrow> real list \<Rightarrow> column list" where
  "set_parameters cols angs = map2 (\<lambda>c a. c\<lparr>parameter := Some a\<rparr>) cols angs"

section \<open>The training-circuit generator\<close>

definition map_to_near_clifford ::
  "column list \<Rightarrow> column list \<Rightarrow> circuit \<Rightarrow> nat \<Rightarrow> real \<Rightarrow> string \<Rightarrow> string \<Rightarrow> kwargs
     \<Rightarrow> (circuit \<times> real option list \<times> real option list) rand" where
  "map_to_near_clifford rz_non_cliff all_cliff empty_circuit total_non_cliff
       fraction_non_clifford method_select method_replace kw =
     (let N = py_int (fraction_non_clifford * real total_non_cliff);
          empty_circuit_copy = empty_circuit;
          rz_non_cliff_copy = rz_non_cliff;
          additional_options = kw_get kw ''additional_options''
      in bind (lift (sigma_options additional_options)) (\<lambda>(sigma_select, sigma_replace).
         bind (select_columns method_select rz_non_cliff_copy total_non_cliff N sigma_select)
           (\<lambda>columns_to_change.
         bind (lift (take_columns rz_non_cliff_copy columns_to_change))
           (\<lambda>rz_non_cliff_selected.
         let rz_non_cliff_rest = np_delete rz_non_cliff_copy columns_to_change;
             angles_original = map parameter rz_non_cliff_selected
         in bind (replace_angles method_replace angles_original sigma_replace)
           (\<lambda>new_angles.
         let rz_non_cliff_changed = set_parameters rz_non_cliff_selected new_angles;
             angles_replaced = map parameter rz_non_cliff_changed;
             new_circ = (all_cliff @ rz_non_cliff_changed) @ rz_non_cliff_rest;
             projected_circuit_data = sort_key order new_circ
         in bind (lift (array_to_circuit projected_circuit_data empty_circuit_copy))
           (\<lambda>projected_circuit.
         ret (projected_circuit, angles_original, angles_replaced)))))))"

text \<open>The loop \<open>for n in range(num_training_circuits)\<close> with its three result lists.\<close>

fun training_loop ::
  "nat \<Rightarrow> (circuit \<times> real option list \<times> real option list) rand
     \<Rightarrow> circuit list \<times> real option list list \<times> real option list list
     \<Rightarrow> (circuit list \<times> real option list list \<times> real option list list) rand" where
  "training_loop 0 step acc r = (Inr acc, r)"
| "training_loop (Suc n) step (circuits_list, angles_original_list, angles_replaced_list) r =
     (case step r of
        (Inl e, r') \<Rightarrow> (Inl e, r')
      | (Inr (projected_circuit, angles_original, angles_replaced), r') \<Rightarrow>
          training_loop n step
            (circuits_list @ [projected_circuit],
             angles_original_list @ [angles_original],
             angles_replaced_list @ [angles_replaced]) r')"

text \<open>
  What the wrapper hands to \<open>_map_to_near_clifford\<close>: when any keyword argument was
  given, the single keyword \<open>additional_options = additional_options.get('additional_options')\<close>;
  otherwise none.
\<close>

definition forwarded_kwargs :: "kwargs \<Rightarrow> kwargs" where
  "forwarded_kwargs additional_options =
     (if additional_options \<noteq> []
      then [(''additional_options'', kw_get additional_options ''additional_options'')]
      else [])"

definition generate_training_circuits ::
  "circuit \<Rightarrow> int \<Rightarrow> real \<Rightarrow> string \<Rightarrow> string \<Rightarrow> kwargs
     \<Rightarrow> (circuit list \<times> real option list list \<times> real option list list) rand" where
  "generate_training_circuits circ num_training_circuits fraction_non_clifford
       method_select method_replace additional_options =
     (case circuit_to_array circ of
        (data, empty_circuit) \<Rightarrow>
          bind (lift (columns_of data)) (\<lambda>cols.
            let rz_circ_data = filter (\<lambda>c. name c = ''rz'') cols;
                not_rz_circ_data = filter (\<lambda>c. name c \<noteq> ''rz'') cols
            in bind (is_clifford_angle (map parameter rz_circ_data)) (\<lambda>mask1.
            let mask_non_cliff = map Not mask1;
                rz_non_cliff = select_mask rz_circ_data mask_non_cliff
            in bind (is_clifford_angle (map parameter rz_circ_data)) (\<lambda>mask_cliff.
            let rz_cliff = select_mask rz_circ_data mask_cliff;
                total_non_cliff = length rz_non_cliff;
                all_cliff = not_rz_circ_data @ rz_cliff
            in training_loop (nat num_training_circuits)
                 (map_to_near_clifford rz_non_cliff all_cliff empty_circuit total_non_cliff
                    fraction_non_clifford method_select method_replace
                    (forwarded_kwargs additional_options))
                 ([], [], [])))))"

section \<open>Notions used to state the properties\<close>

text \<open>The scaled coordinate \<open>s\<close> of an angle: \<open>(\<theta> mod 2\<pi>) / (\<pi>/2)\<close>.\<close>

definition ang_scaled :: "real \<Rightarrow> real" where
  "ang_scaled ang0 = py_mod ang0 (2 * pi) / (pi / 2)"

text \<open>The guard of \<open>_closest_clifford\<close>, negated: the tie-break branch is taken.\<close>

definition at_midpoint :: "real \<Rightarrow> bool" where
  "at_midpoint s = (\<not> (\<bar>s / (1 / 2) - 1\<bar> > 1 / 10 ^ 6
            \<and> \<bar>s / (1 / 2) - 3\<bar> > 1 / 10 ^ 6
            \<and> \<bar>s / (1 / 2) - 5\<bar> > 1 / 10 ^ 6))"

text \<open>The classification of an angle, as a function of the angle alone.\<close>

definition clifford_pure :: "real \<Rightarrow> bool" where
  "clifford_pure a =
     (\<not> at_midpoint (ang_scaled a) \<and>
      \<bar>CLIFFORD_ANGLES ! nat (np_round (ang_scaled a) mod 4) - py_mod a (2 * pi)\<bar> < default_tol)"

text \<open>What the encoder records for one operation, as functions of the operation.\<close>

definition recognised :: "operation \<Rightarrow> bool" where
  "recognised opn = (case opn of Other qs \<Rightarrow> False | _ \<Rightarrow> True)"

definition gate_name :: "operation \<Rightarrow> string" where
  "gate_name opn =
     (case opn of
        CX e q0 q1 \<Rightarrow> ''cx''
      | ZPow e q \<Rightarrow> ''rz''
      | XPow e q \<Rightarrow> (if e \<noteq> 1 then ''rx'' else ''x'')
      | Measure q qs \<Rightarrow> ''measure''
      | Other qs \<Rightarrow> ''other'')"

definition gate_parameter :: "operation \<Rightarrow> real option" where
  "gate_parameter opn =
     (case opn of
        ZPow e q \<Rightarrow> Some (e * pi)
      | XPow e q \<Rightarrow> (if e \<noteq> 1 then Some (pi / 2) else None)
      | _ \<Rightarrow> None)"

definition gate_qubit :: "operation \<Rightarrow> qubit list" where
  "gate_qubit opn =
     (case opn of
        CX e q0 q1 \<Rightarrow> [q0, q1]
      | ZPow e q \<Rightarrow> [q]
      | XPow e q \<Rightarrow> [q]
      | Measure q qs \<Rightarrow> [q]
      | Other qs \<Rightarrow> qs)"

definition encode_col :: "nat \<Rightarrow> operation \<Rightarrow> column" where
  "encode_col i opn =
     \<lparr>order = i, name = gate_name opn, parameter = gate_parameter opn,
      qubit = gate_qubit opn, operation = opn\<rparr>"

text \<open>The angles of the \<open>rz\<close> columns of a circuit, in circuit order.\<close>

definition rz_angles :: "circuit \<Rightarrow> real list" where
  "rz_angles circ = concat (map (\<lambda>opn. case opn of ZPow e q \<Rightarrow> [e * pi] | _ \<Rightarrow> []) circ)"

text \<open>The empty lists the encoder starts from, and the table it builds when every gate is recognised.\<close>

definition lists0 :: lists where
  "lists0 = \<lparr>order_list = [], gates_list = [], parameters_list = [], qubits_list = [],
                 operation_list = []\<rparr>"

definition encode_all :: "circuit \<Rightarrow> column list" where
  "encode_all circ = map2 encode_col [0..<length circ] circ"

text \<open>
  The two groups of columns the wrapper hands to \<open>_map_to_near_clifford\<close>, as functions of
  the circuit: the non-Clifford \<open>rz\<close> columns, and all the others (non-\<open>rz\<close> columns
  first, then the Clifford \<open>rz\<close> columns).
\<close>

definition is_cliff_col :: "column \<Rightarrow> bool" where
  "is_cliff_col c = (case parameter c of Some a \<Rightarrow> clifford_pure a | None \<Rightarrow> False)"

definition rz_cols :: "circuit \<Rightarrow> column list" where
  "rz_cols circ = filter (\<lambda>c. name c = ''rz'') (encode_all circ)"

definition non_cliff_cols :: "circuit \<Rightarrow> column list" where
  "non_cliff_cols circ = filter (\<lambda>c. \<not> is_cliff_col c) (rz_cols circ)"

definition cliff_cols :: "circuit \<Rightarrow> column list" where
  "cliff_cols circ =
     filter (\<lambda>c. name c \<noteq> ''rz'') (encode_all circ) @ filter is_cliff_col (rz_cols circ)"

text \<open>The random source after the wrapper's two classification passes.\<close>

definition classify_rng :: "circuit \<Rightarrow> rng \<Rightarrow> rng" where
  "classify_rng circ r =
     snd (is_clifford_angle (map parameter (rz_cols circ))
            (snd (is_clifford_angle (map parameter (rz_cols circ)) r)))"

text \<open>The qubits an operation acts on.\<close>

definition op_qubits :: "operation \<Rightarrow> qubit list" where
  "op_qubits opn =
     (case opn of
        CX e q0 q1 \<Rightarrow> [q0, q1]
      | ZPow e q \<Rightarrow> [q]
      | XPow e q \<Rightarrow> [q]
      | Measure q qs \<Rightarrow> q # qs
      | Other qs \<Rightarrow> qs)"

text \<open>
  A column stems from the circuit when it is the column the encoder made for the operation
  at its \<open>order\<close>, except that an \<open>rz\<close> column may carry another angle.
\<close>

definition stems_from :: "circuit \<Rightarrow> column \<Rightarrow> bool" where
  "stems_from circ c =
     (order c < length circ \<and> recognised (circ ! order c) \<and>
      (if name c = ''rz''
       then parameter c \<noteq> None \<and>
            c\<lparr>parameter := None\<rparr> = (encode_col (order c) (circ ! order c))\<lparr>parameter := None\<rparr>
       else c = encode_col (order c) (circ ! order c)))"

text \<open>Two concrete random sources: every raw draw is 0, respectively 1.\<close>

definition rng0 :: rng where
  "rng0 = \<lparr>py_draws = (\<lambda>_. 0), py_pos = 0, np_draws = (\<lambda>_. 0), np_pos = 0\<rparr>"

definition rng1 :: rng where
  "rng1 = \<lparr>py_draws = (\<lambda>_. 1), py_pos = 0, np_draws = (\<lambda>_. 1 / 2), np_pos = 0\<rparr>"


section \<open>The oracle: auxiliary facts\<close>

lemma py_mod_range: "0 < y \<Longrightarrow> 0 \<le> py_mod x y \<and> py_mod x y < y"
  using floor_divide_lower[of y x] floor_divide_upper[of y x]
  by (simp add: py_mod_def algebra_simps)

lemma ang_scaled_range: "0 \<le> ang_scaled a \<and> ang_scaled a < 4"
proof -
  have p: "0 < 2 * pi" by simp
  from py_mod_range[OF p, of a] have "0 \<le> py_mod a (2 * pi)" "py_mod a (2 * pi) < 2 * pi" by auto
  then show ?thesis unfolding ang_scaled_def using pi_gt_zero
    by (simp add: field_simps)
qed

lemma np_round_bounds: "of_int (np_round x) \<le> x + 1 / 2 \<and> x - 1 / 2 \<le> of_int (np_round x)"
  unfolding np_round_def Let_def by (auto; linarith)

lemma np_round_mod4: "0 \<le> np_round s mod 4 \<and> np_round s mod 4 < 4"
  by simp

lemma py_index_clifford: "0 \<le> i \<Longrightarrow> i < 4 \<Longrightarrow> py_index CLIFFORD_ANGLES i = Inr (CLIFFORD_ANGLES ! nat i)"
  by (simp add: py_index_def CLIFFORD_ANGLES_def)

lemma closest_det:
  "\<not> at_midpoint (ang_scaled a) \<Longrightarrow>
     closest_clifford_body a r = (Inr (CLIFFORD_ANGLES ! nat (np_round (ang_scaled a) mod 4)), r)"
  unfolding closest_clifford_body_def at_midpoint_def ang_scaled_def Let_def
  by (simp add: py_index_clifford)

lemma midpoint_py_int:
  assumes "at_midpoint s" "0 \<le> s" "s < 4"
  shows "0 \<le> py_int (s - 1/2) \<and> py_int (s - 1/2) < 4 \<and> 0 \<le> py_int (s + 1/2) \<and> py_int (s + 1/2) < 4"
  using assms unfolding at_midpoint_def py_int_def
  by (auto simp: abs_if split: if_splits; linarith)


lemma py_mod_idem: "0 < y \<Longrightarrow> py_mod (py_mod x y) y = py_mod x y"
proof -
  assume y: "0 < y"
  from py_mod_range[OF y, of x] have "0 \<le> py_mod x y / y" "py_mod x y / y < 1"
    using y by (simp_all add: field_simps)
  then have "\<lfloor>py_mod x y / y\<rfloor> = 0" by linarith
  then show ?thesis by (simp add: py_mod_def[of "py_mod x y" y])
qed

lemma ang_scaled_idem: "ang_scaled (py_mod a (2 * pi)) = ang_scaled a"
  by (simp add: ang_scaled_def py_mod_idem)

lemma py_mod_scaled: "py_mod a (2 * pi) = ang_scaled a * (pi / 2)"
  by (simp add: ang_scaled_def)

lemma clifford_nth: "0 \<le> k \<Longrightarrow> k < 4 \<Longrightarrow> CLIFFORD_ANGLES ! nat k = of_int k * (pi / 2)"
proof -
  assume "0 \<le> k" "k < 4"
  then have "k = 0 \<or> k = 1 \<or> k = 2 \<or> k = 3" by auto
  then show ?thesis by (auto simp: CLIFFORD_ANGLES_def)
qed

lemma clifford_nth_mem: "0 \<le> k \<Longrightarrow> k < 4 \<Longrightarrow> CLIFFORD_ANGLES ! nat k \<in> set CLIFFORD_ANGLES"
  by (rule nth_mem) (simp add: CLIFFORD_ANGLES_def)

lemma choice2:
  "choice [x, y] r =
     (Inr (if py_draws r (py_pos r) mod 2 = 0 then x else y), r\<lparr>py_pos := Suc (py_pos r)\<rparr>)"
proof -
  have m: "py_draws r (py_pos r) mod 2 = 0 \<or> py_draws r (py_pos r) mod 2 = 1" by auto
  have l: "length [x, y] = 2" by simp
  show ?thesis using m unfolding choice_def randbelow_def l by auto
qed

lemma closest_tie:
  assumes "at_midpoint (ang_scaled a)"
  shows "closest_clifford_body a r =
     (Inr (CLIFFORD_ANGLES ! nat (py_int (if py_draws r (py_pos r) mod 2 = 0
              then ang_scaled a - 1 / 2 else ang_scaled a + 1 / 2))),
      r\<lparr>py_pos := Suc (py_pos r)\<rparr>)"
proof -
  have rg: "0 \<le> ang_scaled a" "ang_scaled a < 4" using ang_scaled_range by auto
  note b = midpoint_py_int[OF assms rg]
  have c: "closest_clifford_body a r = (case choice [ang_scaled a - 1 / 2, ang_scaled a + 1 / 2] r of
                 (Inl e, r') \<Rightarrow> (Inl e, r')
               | (Inr x, r') \<Rightarrow> (py_index CLIFFORD_ANGLES (py_int x), r'))"
    using assms
    unfolding closest_clifford_body_def at_midpoint_def Let_def ang_scaled_def[symmetric]
    by (simp only: if_False)
  show ?thesis unfolding c choice2 using b by (simp add: py_index_clifford)
qed

lemma closest_total:
  "\<exists>c r'. closest_clifford_body a r = (Inr c, r') \<and> c \<in> set CLIFFORD_ANGLES"
proof (cases "at_midpoint (ang_scaled a)")
  case True
  have rg: "0 \<le> ang_scaled a" "ang_scaled a < 4" using ang_scaled_range by auto
  note b = midpoint_py_int[OF True rg]
  show ?thesis unfolding closest_tie[OF True]
    using b by (auto intro!: clifford_nth_mem)
next
  case False
  show ?thesis unfolding closest_det[OF False]
    by (auto intro!: clifford_nth_mem)
qed

lemma midpoint_far:
  assumes "at_midpoint s"
  shows "1 / 3 \<le> \<bar>of_int k - s\<bar>"
proof -
  have m: "\<bar>s - 1/2\<bar> \<le> 1 / 10^6 \<or> \<bar>s - 3/2\<bar> \<le> 1 / 10^6 \<or> \<bar>s - 5/2\<bar> \<le> 1 / 10^6"
    using assms unfolding at_midpoint_def by (auto simp: abs_if split: if_splits)
  have i0: "k \<le> 0 \<or> 1 \<le> k" by linarith
  have i1: "k \<le> 1 \<or> 2 \<le> k" by linarith
  have i2: "k \<le> 2 \<or> 3 \<le> k" by linarith
  have g0: "(of_int k :: real) \<le> 0 \<or> (1::real) \<le> of_int k" using i0 by simp
  have g1: "(of_int k :: real) \<le> 1 \<or> (2::real) \<le> of_int k" using i1 by simp
  have g2: "(of_int k :: real) \<le> 2 \<or> (3::real) \<le> of_int k" using i2 by simp
  from m show ?thesis
  proof (elim disjE)
    assume A: "\<bar>s - 1/2\<bar> \<le> 1 / 10^6"
    have "499999 / 1000000 \<le> s" "s \<le> 500001 / 1000000" using A unfolding abs_le_iff by simp_all
    with g0 show ?thesis by linarith
  next
    assume A: "\<bar>s - 3/2\<bar> \<le> 1 / 10^6"
    have "1499999 / 1000000 \<le> s" "s \<le> 1500001 / 1000000" using A unfolding abs_le_iff by simp_all
    with g1 show ?thesis by linarith
  next
    assume A: "\<bar>s - 5/2\<bar> \<le> 1 / 10^6"
    have "2499999 / 1000000 \<le> s" "s \<le> 2500001 / 1000000" using A unfolding abs_le_iff by simp_all
    with g2 show ?thesis by linarith
  qed
qed

lemma tie_not_clifford:
  assumes mid: "at_midpoint (ang_scaled a)" and k: "0 \<le> k" "k < 4"
  shows "\<not> \<bar>CLIFFORD_ANGLES ! nat k - py_mod a (2 * pi)\<bar> < default_tol"
proof -
  have "CLIFFORD_ANGLES ! nat k - py_mod a (2 * pi) = (of_int k - ang_scaled a) * (pi / 2)"
    unfolding clifford_nth[OF k] py_mod_scaled by (simp add: algebra_simps)
  then have "\<bar>CLIFFORD_ANGLES ! nat k - py_mod a (2 * pi)\<bar> = \<bar>(of_int k - ang_scaled a) * (pi / 2)\<bar>"
    by (simp only:)
  also have "\<dots> = \<bar>of_int k - ang_scaled a\<bar> * (pi / 2)"
    unfolding abs_mult by simp
  finally have "\<bar>CLIFFORD_ANGLES ! nat k - py_mod a (2 * pi)\<bar> = \<bar>of_int k - ang_scaled a\<bar> * (pi / 2)" .
  moreover have "1 / 3 \<le> \<bar>of_int k - ang_scaled a\<bar>" by (rule midpoint_far[OF mid])
  moreover have "1 \<le> pi / 2" using pi_ge_two by simp
  ultimately have "1 / 3 * 1 \<le> \<bar>CLIFFORD_ANGLES ! nat k - py_mod a (2 * pi)\<bar>"
    using mult_mono[of "1/3" "\<bar>of_int k - ang_scaled a\<bar>" 1 "pi / 2"] by simp
  then show ?thesis by (simp add: default_tol_def)
qed

lemma is_clifford_body_value:
  "\<exists>r'. is_clifford_angle_body default_tol a r = (Inr (clifford_pure a), r')"
proof (cases "at_midpoint (ang_scaled a)")
  case False
  then have F: "\<not> at_midpoint (ang_scaled (py_mod a (2 * pi)))" by (simp add: ang_scaled_idem)
  show ?thesis
    unfolding is_clifford_angle_body_def np_vectorize_scalar_def np_vectorize_def Let_def
    by (simp add: closest_det[OF F] ang_scaled_idem clifford_pure_def False)
next
  case True
  then have T: "at_midpoint (ang_scaled (py_mod a (2 * pi)))" by (simp add: ang_scaled_idem)
  have rg: "0 \<le> ang_scaled a" "ang_scaled a < 4" using ang_scaled_range by auto
  note b = midpoint_py_int[OF True rg]
  show ?thesis
    unfolding is_clifford_angle_body_def np_vectorize_scalar_def np_vectorize_def Let_def
    using b tie_not_clifford[OF True]
    by (simp add: closest_tie[OF T] ang_scaled_idem clifford_pure_def True)
qed

lemma py_mod_small: "0 < y \<Longrightarrow> 0 \<le> x \<Longrightarrow> x < y \<Longrightarrow> py_mod x y = x"
proof -
  assume y: "0 < y" and x: "0 \<le> x" "x < y"
  then have "0 \<le> x / y" "x / y < 1" by (simp_all add: field_simps)
  then have "\<lfloor>x / y\<rfloor> = 0" by linarith
  then show ?thesis by (simp add: py_mod_def)
qed

lemma py_mod_quarter: "0 \<le> x \<Longrightarrow> x < 4 \<Longrightarrow> py_mod (x * (pi / 2)) (2 * pi) = x * (pi / 2)"
proof (rule py_mod_small)
  assume x: "0 \<le> x" "x < 4"
  show "0 < 2 * pi" by simp
  show "0 \<le> x * (pi / 2)" using x by simp
  have "x * (pi / 2) < 4 * (pi / 2)" using x pi_gt_zero by (simp add: field_simps)
  then show "x * (pi / 2) < 2 * pi" by simp
qed

lemma ang_scaled_quarter: "0 \<le> x \<Longrightarrow> x < 4 \<Longrightarrow> ang_scaled (x * (pi / 2)) = x"
  unfolding ang_scaled_def by (simp only: py_mod_quarter) simp

lemma np_round_of_int: "np_round (of_int k) = k"
  by (simp add: np_round_def)

lemma not_midpoint_real:
  "x \<le> 0 \<or> x = 1 \<or> x = 2 \<or> 3 \<le> x \<Longrightarrow> \<not> at_midpoint x"
  unfolding at_midpoint_def by (auto simp: abs_if)

lemma not_midpoint_of_int: "\<not> at_midpoint (of_int k)"
proof (rule not_midpoint_real)
  have o: "k \<le> 0 \<or> k = 1 \<or> k = 2 \<or> 3 \<le> k" by linarith
  then show "(of_int k :: real) \<le> 0 \<or> (of_int k :: real) = 1 \<or> (of_int k :: real) = 2 \<or> (3::real) \<le> of_int k"
    by auto
qed

lemma clifford_pure_quarter:
  assumes k: "0 \<le> k" "k < 4"
  shows "clifford_pure (CLIFFORD_ANGLES ! nat k)"
proof -
  have r: "(0::real) \<le> of_int k" "(of_int k :: real) < 4" using k by simp_all
  have s: "ang_scaled (of_int k * (pi / 2)) = of_int k" by (rule ang_scaled_quarter[OF r])
  have m: "py_mod (of_int k * (pi / 2)) (2 * pi) = of_int k * (pi / 2)" by (rule py_mod_quarter[OF r])
  have km: "k mod 4 = k" using k by simp
  show ?thesis
    unfolding clifford_nth[OF k] clifford_pure_def s m np_round_of_int km
    by (simp add: not_midpoint_of_int clifford_nth[OF k] default_tol_def)
qed

lemma clifford_mem_nth: "c \<in> set CLIFFORD_ANGLES \<Longrightarrow> \<exists>k. 0 \<le> k \<and> k < 4 \<and> c = CLIFFORD_ANGLES ! nat k"
proof -
  assume "c \<in> set CLIFFORD_ANGLES"
  then obtain i where i: "i < length CLIFFORD_ANGLES" "c = CLIFFORD_ANGLES ! i"
    by (auto simp: in_set_conv_nth)
  then have "0 \<le> int i \<and> int i < 4 \<and> c = CLIFFORD_ANGLES ! nat (int i)"
    by (simp add: CLIFFORD_ANGLES_def)
  then show ?thesis by blast
qed

lemma clifford_pure_mem: "c \<in> set CLIFFORD_ANGLES \<Longrightarrow> clifford_pure c"
  using clifford_mem_nth clifford_pure_quarter by blast

lemma at_midpoint_iff:
  "at_midpoint s \<longleftrightarrow>
     (\<bar>s - 1 / 2\<bar> \<le> 1 / (2 * 10 ^ 6) \<or> \<bar>s - 3 / 2\<bar> \<le> 1 / (2 * 10 ^ 6)
      \<or> \<bar>s - 5 / 2\<bar> \<le> 1 / (2 * 10 ^ 6))"
  unfolding at_midpoint_def by (auto simp: abs_if split: if_splits)

lemma py_int_above:
  assumes "of_int j \<le> x" "x < of_int j + 1" "0 \<le> j"
  shows "py_int x = j"
proof -
  have "0 \<le> x" using assms by (smt (verit) of_int_0_le_iff)
  moreover have "\<lfloor>x\<rfloor> = j" using assms by linarith
  ultimately show ?thesis by (simp add: py_int_def)
qed

lemma above_midpoint:
  assumes j: "0 \<le> j" "j \<le> 2"
    and lo: "of_int j + 1 / 2 \<le> s" and hi: "s \<le> of_int j + 1 / 2 + 1 / (2 * 10 ^ 6)"
  shows "at_midpoint s"
proof -
  have "j = 0 \<or> j = 1 \<or> j = 2" using j by linarith
  then show ?thesis unfolding at_midpoint_iff using lo hi by (auto simp: abs_if)
qed

lemma clifford_angles_nth:
  "CLIFFORD_ANGLES ! 0 = 0" "CLIFFORD_ANGLES ! Suc 0 = pi / 2"
  "CLIFFORD_ANGLES ! 2 = pi" "CLIFFORD_ANGLES ! 3 = 3 / 2 * pi"
  by (simp_all add: CLIFFORD_ANGLES_def)

text \<open>
  Just below a midpoint the truncation \<open>int(...)\<close> of \<open>ang_scaled - 0.5\<close> lands one
  index lower: at \<open>s = 1.5 - 2e-7\<close> the first alternative is index 0, the angle 0.
\<close>

lemma closest_clifford_below_midpoint_example:
  "closest_clifford_body (7499999 / 5000000 * (pi / 2)) rng0 = (Inr 0, rng0\<lparr>py_pos := 1\<rparr>)"
proof -
  have s: "ang_scaled (7499999 / 5000000 * (pi / 2)) = 7499999 / 5000000"
    by (rule ang_scaled_quarter) simp_all
  have m: "at_midpoint (ang_scaled (7499999 / 5000000 * (pi / 2)))"
    unfolding s by (simp add: at_midpoint_def)
  show ?thesis unfolding closest_tie[OF m] unfolding s
    by (simp add: rng0_def py_int_def clifford_angles_nth)
qed

section \<open>The encoder and the count: auxiliary facts\<close>

lemma encode_step_fields:
  "order_list (encode_step l (i, opn)) = order_list l @ [i]"
  "operation_list (encode_step l (i, opn)) = operation_list l @ [opn]"
  "gates_list (encode_step l (i, opn)) = gates_list l @ (if recognised opn then [gate_name opn] else [])"
  "parameters_list (encode_step l (i, opn)) = parameters_list l @ (if recognised opn then [gate_parameter opn] else [])"
  "qubits_list (encode_step l (i, opn)) = qubits_list l @ (if recognised opn then [gate_qubit opn] else [])"
  by (cases opn; simp add: add_gate_def recognised_def gate_name_def gate_parameter_def gate_qubit_def Let_def)+

lemma zip_upt_snoc:
  "zip [0..<length (xs @ [x])] (xs @ [x]) = zip [0..<length xs] xs @ [(length xs, x)]"
  by simp

lemma foldl_encode:
  "order_list (foldl encode_step lists0 (zip [0..<length xs] xs)) = [0..<length xs]
   \<and> operation_list (foldl encode_step lists0 (zip [0..<length xs] xs)) = xs
   \<and> gates_list (foldl encode_step lists0 (zip [0..<length xs] xs)) = map gate_name (filter recognised xs)
   \<and> parameters_list (foldl encode_step lists0 (zip [0..<length xs] xs)) = map gate_parameter (filter recognised xs)
   \<and> qubits_list (foldl encode_step lists0 (zip [0..<length xs] xs)) = map gate_qubit (filter recognised xs)"
proof (induction xs rule: rev_induct)
  case Nil
  show ?case by (simp add: lists0_def)
next
  case (snoc x xs)
  show ?case unfolding zip_upt_snoc foldl_append
    using snoc by (simp add: encode_step_fields del: encode_step.simps)
qed


lemma length_filter_eq_iff: "length (filter P xs) = length xs \<longleftrightarrow> list_all P xs"
proof
  assume l: "length (filter P xs) = length xs"
  show "list_all P xs"
  proof (rule ccontr)
    assume "\<not> list_all P xs"
    then obtain x where "x \<in> set xs" "\<not> P x" by (auto simp: list_all_iff)
    then have "length (filter P xs) < length xs" by (rule length_filter_less)
    with l show False by simp
  qed
next
  assume "list_all P xs"
  then have "filter P xs = xs" by (simp add: list_all_iff)
  then show "length (filter P xs) = length xs" by simp
qed

lemma circuit_to_array_eq:
  "circuit_to_array circ =
     (if list_all recognised circ then Table (map2 encode_col [0..<length circ] circ) else Ragged, [])"
proof -
  let ?l = "foldl encode_step lists0 (zip [0..<length circ] circ)"
  note f = foldl_encode[of circ]
  have c: "circuit_to_array circ = (np_array ?l, [])"
    by (simp add: circuit_to_array_def lists0_def)
  show ?thesis
  proof (cases "list_all recognised circ")
    case True
    then have fl: "filter recognised circ = circ" by (simp add: list_all_iff)
    have "map (\<lambda>i. \<lparr>order = order_list ?l ! i, name = gates_list ?l ! i,
                               parameter = parameters_list ?l ! i, qubit = qubits_list ?l ! i,
                               operation = operation_list ?l ! i\<rparr>) [0..<length circ]
          = map2 encode_col [0..<length circ] circ"
      using f unfolding fl
      by (intro nth_equalityI) (simp_all add: encode_col_def)
    then show ?thesis unfolding c np_array_def using f True unfolding fl by (simp add: Let_def)
  next
    case False
    then have "length (filter recognised circ) \<noteq> length circ"
      by (simp add: length_filter_eq_iff)
    then show ?thesis unfolding c np_array_def using f False by (simp add: Let_def)
  qed
qed


lemma map_rand_pure:
  assumes "\<And>x r. x \<in> set xs \<Longrightarrow> \<exists>r'. f x r = (Inr (g x), r')"
  shows "\<exists>r'. map_rand f xs r = (Inr (map g xs), r')"
  using assms
proof (induction xs arbitrary: r)
  case Nil
  show ?case by simp
next
  case (Cons x xs)
  obtain r1 where 1: "f x r = (Inr (g x), r1)" using Cons.prems[of x r] by auto
  obtain r2 where 2: "map_rand f xs r1 = (Inr (map g xs), r2)"
    using Cons.IH[of r1] Cons.prems by auto
  show ?case by (simp add: 1 2)
qed

lemma np_vectorize_empty: "np_vectorize f [] r = (Inl ValueError, r)"
  by (simp add: np_vectorize_def)

lemma np_vectorize_pure:
  assumes "\<And>x r. x \<in> set xs \<Longrightarrow> \<exists>r'. f x r = (Inr (g x), r')" and "xs \<noteq> []"
  shows "\<exists>r'. np_vectorize f xs r = (Inr (map g xs), r')"
proof -
  obtain x ys where xs: "xs = x # ys" using assms(2) by (cases xs) auto
  obtain r1 where 1: "f x r = (Inr (g x), r1)" using assms(1)[of x r] xs by auto
  obtain r2 where 2: "map_rand f xs r1 = (Inr (map g xs), r2)"
    using map_rand_pure[of xs f g r1] assms(1) by auto
  show ?thesis using 1 2 unfolding np_vectorize_def xs by simp
qed

lemma is_clifford_angle_some:
  assumes "angs \<noteq> []"
  shows "\<exists>r'. is_clifford_angle (map Some angs) r = (Inr (map clifford_pure angs), r')"
proof -
  have "\<exists>r'. on_float (is_clifford_angle_body default_tol) c r = (Inr ((clifford_pure \<circ> the) c), r')"
    if "c \<in> set (map Some angs)" for c r
    using that is_clifford_body_value by (auto simp: on_float_def)
  from np_vectorize_pure[of "map Some angs" _ "clifford_pure \<circ> the", OF this]
  show ?thesis unfolding is_clifford_angle_def using assms by (simp add: comp_def)
qed

lemma is_clifford_angle_nil: "is_clifford_angle [] r = (Inl ValueError, r)"
  by (simp add: is_clifford_angle_def np_vectorize_empty)

lemma encode_all_enumerate: "encode_all circ = map (\<lambda>(i, opn). encode_col i opn) (enumerate 0 circ)"
  by (simp add: encode_all_def enumerate_eq_zip)

lemma rz_params_enumerate:
  "map parameter (filter (\<lambda>c. name c = ''rz'') (map (\<lambda>(i, opn). encode_col i opn) (enumerate n circ)))
     = map Some (rz_angles circ)"
proof (induction circ arbitrary: n)
  case Nil
  show ?case by (simp add: rz_angles_def)
next
  case (Cons opn circ)
  show ?case using Cons[of "Suc n"]
    by (cases opn) (simp_all add: rz_angles_def encode_col_def gate_name_def gate_parameter_def)
qed

lemma rz_params: "map parameter (filter (\<lambda>c. name c = ''rz'') (encode_all circ)) = map Some (rz_angles circ)"
  unfolding encode_all_enumerate by (rule rz_params_enumerate)

lemma length_select_mask:
  "length xs = length m \<Longrightarrow> length (select_mask xs m) = length (filter (\<lambda>b. b) m)"
proof (induction xs m rule: list_induct2)
  case Nil
  show ?case by (simp add: select_mask_def)
next
  case (Cons x xs b m)
  then show ?case by (simp add: select_mask_def)
qed

lemma count_non_cliffords_value:
  "\<exists>r'. count_non_cliffords circ r =
     (if \<not> list_all recognised circ then Inl IndexError
      else if rz_angles circ = [] then Inl ValueError
      else Inr (length (filter (\<lambda>a. \<not> clifford_pure a) (rz_angles circ))), r')"
proof (cases "list_all recognised circ")
  case False
  then show ?thesis
    by (simp add: count_non_cliffords_def circuit_to_array_eq columns_of_def)
next
  case True
  let ?rz = "filter (\<lambda>c. name c = ''rz'') (encode_all circ)"
  have c: "columns_of (fst (circuit_to_array circ)) = Inr (encode_all circ)"
    using True by (simp add: circuit_to_array_eq columns_of_def encode_all_def)
  show ?thesis
  proof (cases "rz_angles circ = []")
    case e: True
    show ?thesis unfolding count_non_cliffords_def c
      using True e by (simp add: Let_def rz_params is_clifford_angle_nil)
  next
    case ne: False
    obtain r' where i: "is_clifford_angle (map Some (rz_angles circ)) r = (Inr (map clifford_pure (rz_angles circ)), r')"
      using is_clifford_angle_some[OF ne] by blast
    have len: "length ?rz = length (map Not (map clifford_pure (rz_angles circ)))"
      using arg_cong[OF rz_params[of circ], of length] by simp
    have "length (select_mask ?rz (map Not (map clifford_pure (rz_angles circ))))
            = length (filter (\<lambda>a. \<not> clifford_pure a) (rz_angles circ))"
      unfolding length_select_mask[OF len] by (simp add: filter_map comp_def)
    then show ?thesis unfolding count_non_cliffords_def c
      using True ne by (simp add: Let_def rz_params i)
  qed
qed

section \<open>Options: auxiliary facts\<close>

lemma bind_lift_Inl: "bind (lift (Inl e)) f r = (Inl e, r)"
  by (simp add: bind_def lift_def)

lemma bind_lift_Inr: "bind (lift (Inr x)) f r = f x r"
  by (simp add: bind_def lift_def)

lemma sigma_options_dict:
  "sigma_options (PyDict d) =
     (if d \<noteq> [] \<and> map_of d ''sigma_select'' = None \<and> map_of d ''sigma_replace'' = None
      then Inl OptionsException
      else Inr (case map_of d ''sigma_select'' of None \<Rightarrow> 1 / 2 | Some x \<Rightarrow> x,
                case map_of d ''sigma_replace'' of None \<Rightarrow> 1 / 2 | Some y \<Rightarrow> y))"
  by (simp add: sigma_options_def truthy_def defult_sigma_select_def defult_sigma_replace_def
      split: option.splits)

lemma sigma_options_none: "sigma_options PyNone = Inr (1 / 2, 1 / 2)"
  by (simp add: sigma_options_def truthy_def defult_sigma_select_def defult_sigma_replace_def)

lemma map_to_near_clifford_options_error:
  "sigma_options (kw_get kw ''additional_options'') = Inl e \<Longrightarrow>
     map_to_near_clifford rz_non_cliff all_cliff empty_circuit tot fraction ms mr kw r = (Inl e, r)"
  by (simp add: map_to_near_clifford_def Let_def bind_lift_Inl)

lemma kw_get_forwarded:
  "kw_get (forwarded_kwargs kw) ''additional_options'' = kw_get kw ''additional_options''"
  by (simp add: forwarded_kwargs_def kw_get_def)

lemma map_to_near_clifford_kw:
  "kw_get kw1 ''additional_options'' = kw_get kw2 ''additional_options'' \<Longrightarrow>
   map_to_near_clifford a b c t f ms mr kw1 = map_to_near_clifford a b c t f ms mr kw2"
  by (simp add: map_to_near_clifford_def)

lemma generate_kw:
  "kw_get kw1 ''additional_options'' = kw_get kw2 ''additional_options'' \<Longrightarrow>
   generate_training_circuits circ n f ms mr kw1 = generate_training_circuits circ n f ms mr kw2"
proof -
  assume a: "kw_get kw1 ''additional_options'' = kw_get kw2 ''additional_options''"
  have "map_to_near_clifford x y z t f ms mr (forwarded_kwargs kw1)
        = map_to_near_clifford x y z t f ms mr (forwarded_kwargs kw2)" for x y z t
    by (rule map_to_near_clifford_kw) (simp add: kw_get_forwarded a)
  then show ?thesis unfolding generate_training_circuits_def by simp
qed

section \<open>Distances and weights: auxiliary facts\<close>

lemma cis_py_mod: "cis (py_mod theta (2 * pi)) = cis theta"
proof -
  have "cis (py_mod theta (2 * pi)) = cis (theta - 2 * pi * of_int \<lfloor>theta / (2 * pi)\<rfloor>)"
    by (simp add: py_mod_def)
  also have "\<dots> = cis theta / cis (2 * pi * of_int \<lfloor>theta / (2 * pi)\<rfloor>)"
    by (rule cis_divide[symmetric])
  also have "cis (2 * pi * of_int \<lfloor>theta / (2 * pi)\<rfloor>) = 1"
    by (rule cis_multiple_2pi) simp
  finally show ?thesis by simp
qed

lemma exp_i_cis: "exp (complex_of_real a * \<i>) = cis a"
  by (simp add: cis_conv_exp mult.commute)

lemma norm_diag_diff:
  "0 < k \<Longrightarrow> linalg_norm (mat_sub [[1, 0], [0, z]] (mat_elem_pow [[1, 0], [0, \<i>]] k)) = cmod (z - \<i> ^ k)"
  by (simp add: linalg_norm_def mat_sub_def mat_elem_pow_def zero_power)

lemma dists_loop_eq:
  "dists_loop theta sigma =
     map (\<lambda>k. exp (- ((clifford_distance theta k / sigma)\<^sup>2))) [4, 1, 2, 3]"
  by (simp add: dists_loop_def Let_def norm_diag_diff exp_i_cis cis_py_mod clifford_distance_def)

lemma angle_to_probabilities_sum:
  "angle_to_probabilities_body theta sigma = sum_list (spec_angle_distance_weights theta sigma)"
  by (simp add: angle_to_probabilities_body_def dists_loop_eq spec_angle_distance_weights_def)


lemma i_pow3: "\<i> ^ 3 = - \<i>"
  by (simp add: power3_eq_cube)

lemma i_pow4: "\<i> ^ 4 = 1"
proof -
  have "\<i> ^ 4 = (\<i> ^ 2) ^ 2" by (simp only: power_even_eq[symmetric]) simp
  then show ?thesis by simp
qed

lemma clifford_distance_sq:
  "(clifford_distance theta k)\<^sup>2 = (cos theta - Re (\<i> ^ k))\<^sup>2 + (sin theta - Im (\<i> ^ k))\<^sup>2"
  by (simp add: clifford_distance_def cmod_power2)

lemma clifford_distance_zero:
  "(clifford_distance 0 (Suc 0))\<^sup>2 = 2" "(clifford_distance 0 2)\<^sup>2 = 4"
  "(clifford_distance 0 3)\<^sup>2 = 2" "(clifford_distance 0 4)\<^sup>2 = 0"
  unfolding clifford_distance_sq by (simp_all add: i_pow3 i_pow4)

lemma weights_zero_one:
  "spec_angle_distance_weights 0 1 = [exp (- 2), exp (- 4), exp (- 2), 1]"
  by (simp add: spec_angle_distance_weights_def clifford_distance_zero)

lemma is_clifford_body_tie:
  assumes "at_midpoint (ang_scaled a)"
  shows "is_clifford_angle_body default_tol a r = (Inr False, r\<lparr>py_pos := Suc (Suc (py_pos r))\<rparr>)"
proof -
  from assms have T: "at_midpoint (ang_scaled (py_mod a (2 * pi)))" by (simp add: ang_scaled_idem)
  have rg: "0 \<le> ang_scaled a" "ang_scaled a < 4" using ang_scaled_range by auto
  note b = midpoint_py_int[OF assms rg]
  show ?thesis
    unfolding is_clifford_angle_body_def np_vectorize_scalar_def np_vectorize_def Let_def
    using b tie_not_clifford[OF assms]
    by (simp add: closest_tie[OF T] ang_scaled_idem)
qed

lemma is_clifford_angle_single_tie:
  assumes "at_midpoint (ang_scaled a)"
  shows "is_clifford_angle [Some a] r = (Inr [False], r\<lparr>py_pos := py_pos r + 4\<rparr>)"
  unfolding is_clifford_angle_def np_vectorize_def
  by (simp add: on_float_def is_clifford_body_tie[OF assms])


section \<open>The generator: auxiliary facts\<close>

lemma select_mask_map: "select_mask xs (map P xs) = filter P xs"
  by (induction xs) (simp_all add: select_mask_def)

lemma rz_cols_params: "map parameter (rz_cols circ) = map Some (rz_angles circ)"
  by (simp add: rz_cols_def rz_params)

lemma rz_cols_nil: "rz_cols circ = [] \<longleftrightarrow> rz_angles circ = []"
  using arg_cong[OF rz_cols_params[of circ], of length] by auto

lemma cliff_mask: "map clifford_pure (rz_angles circ) = map is_cliff_col (rz_cols circ)"
proof -
  have "map is_cliff_col (rz_cols circ) = map (\<lambda>p. case p of Some a \<Rightarrow> clifford_pure a | None \<Rightarrow> False) (map parameter (rz_cols circ))"
    by (simp add: is_cliff_col_def comp_def)
  also have "\<dots> = map clifford_pure (rz_angles circ)"
    unfolding rz_cols_params by (simp add: comp_def)
  finally show ?thesis by simp
qed

lemma is_clifford_angle_rz:
  assumes "rz_angles circ \<noteq> []"
  shows "is_clifford_angle (map parameter (rz_cols circ)) r
           = (Inr (map is_cliff_col (rz_cols circ)), snd (is_clifford_angle (map parameter (rz_cols circ)) r))"
proof -
  obtain r' where "is_clifford_angle (map Some (rz_angles circ)) r = (Inr (map clifford_pure (rz_angles circ)), r')"
    using is_clifford_angle_some[OF assms] by blast
  then show ?thesis unfolding rz_cols_params cliff_mask by simp
qed

lemma generate_preamble:
  "generate_training_circuits circ n f ms mr kw r =
     (if \<not> list_all recognised circ then (Inl IndexError, r)
      else if rz_angles circ = [] then (Inl ValueError, r)
      else training_loop (nat n)
             (map_to_near_clifford (non_cliff_cols circ) (cliff_cols circ) []
                (length (non_cliff_cols circ)) f ms mr (forwarded_kwargs kw))
             ([], [], []) (classify_rng circ r))"
proof (cases "list_all recognised circ")
  case False
  then show ?thesis
    by (simp add: generate_training_circuits_def circuit_to_array_eq columns_of_def bind_lift_Inl)
next
  case True
  have c: "circuit_to_array circ = (Table (encode_all circ), [])"
    using True by (simp add: circuit_to_array_eq encode_all_def)
  show ?thesis
  proof (cases "rz_angles circ = []")
    case e: True
    then have "rz_cols circ = []" by (simp add: rz_cols_nil)
    then show ?thesis using True e
      unfolding generate_training_circuits_def c
      by (simp add: columns_of_def lift_def bind_def Let_def rz_cols_def[symmetric]
          is_clifford_angle_nil)
  next
    case ne: False
    note i = is_clifford_angle_rz[OF ne]
    have m1: "select_mask (rz_cols circ) (map (Not \<circ> is_cliff_col) (rz_cols circ)) = non_cliff_cols circ"
      unfolding select_mask_map by (simp add: non_cliff_cols_def comp_def)
    have m2: "select_mask (rz_cols circ) (map is_cliff_col (rz_cols circ)) = filter is_cliff_col (rz_cols circ)"
      by (rule select_mask_map)
    show ?thesis using True ne
      unfolding generate_training_circuits_def c
      apply (simp add: columns_of_def bind_lift_Inr Let_def rz_cols_def[symmetric])
      apply (subst bind_def)
      apply (subst i)
      apply (simp add: m1)
      apply (subst bind_def)
      apply (subst i)
      apply (simp add: m1 m2 cliff_cols_def classify_rng_def)
      done
  qed
qed

lemma map_to_near_clifford_unfold:
  "map_to_near_clifford a b c t f ms mr kw r =
     (case sigma_options (kw_get kw ''additional_options'') of
        Inl e \<Rightarrow> (Inl e, r)
      | Inr (ss, sr) \<Rightarrow>
          (case select_columns ms a t (py_int (f * real t)) ss r of
             (Inl e, r1) \<Rightarrow> (Inl e, r1)
           | (Inr cols, r1) \<Rightarrow>
               (case take_columns a cols of
                  Inl e \<Rightarrow> (Inl e, r1)
                | Inr sel \<Rightarrow>
                    (case replace_angles mr (map parameter sel) sr r1 of
                       (Inl e, r2) \<Rightarrow> (Inl e, r2)
                     | (Inr angs, r2) \<Rightarrow>
                         (case array_to_circuit
                                 (sort_key order ((b @ set_parameters sel angs) @ np_delete a cols)) c of
                            Inl e \<Rightarrow> (Inl e, r2)
                          | Inr out \<Rightarrow>
                              (Inr (out, map parameter sel,
                                    map parameter (set_parameters sel angs)), r2))))))"
  by (simp add: map_to_near_clifford_def bind_def lift_def ret_def Let_def
      split: sum.splits prod.splits)

lemma training_loop_fail:
  "step r = (Inl e, r') \<Longrightarrow> training_loop (Suc n) step acc r = (Inl e, r')"
  by (cases acc) simp

lemma training_loop_pos_fail:
  "0 < n \<Longrightarrow> step r = (Inl e, r') \<Longrightarrow> training_loop n step acc r = (Inl e, r')"
  by (cases n) (simp_all add: training_loop_fail)

lemma sample_zero: "sample xs 0 r = (Inr [], r)"
  by (simp add: sample_def)

lemma take_columns_nil: "take_columns xs [] = Inr []"
  by (simp add: take_columns_def)

lemma replace_angles_nil:
  "mr = ''closest'' \<or> mr = ''random'' \<or> mr = ''probabilistic'' \<Longrightarrow>
     replace_angles mr [] sr r = (Inl ValueError, r)"
  by (auto simp: replace_angles_def np_vectorize_empty)

lemma map_to_near_clifford_fraction_one:
  assumes "mr = ''closest'' \<or> mr = ''random'' \<or> mr = ''probabilistic''"
  shows "map_to_near_clifford a b c t 1 ''random'' mr [] r = (Inl ValueError, r)"
proof -
  have s: "sigma_options (kw_get [] ''additional_options'') = Inr (1 / 2, 1 / 2)"
    by (simp add: kw_get_def sigma_options_none)
  have n: "py_int (1 * real t) = int t" by (simp add: py_int_def)
  have sel: "select_columns ''random'' a t (int t) (1 / 2) r = (Inr [], r)"
    by (simp add: select_columns_def sample_zero)
  show ?thesis unfolding map_to_near_clifford_unfold s n
    by (simp add: sel take_columns_nil replace_angles_nil[OF assms])
qed

lemma select_columns_invalid:
  "ms \<noteq> ''random'' \<Longrightarrow> ms \<noteq> ''probabilistic'' \<Longrightarrow>
     select_columns ms a t N ss r = (Inl MethodSelectException, r)"
  by (simp add: select_columns_def raise_def)

lemma replace_angles_invalid:
  "mr \<noteq> ''closest'' \<Longrightarrow> mr \<noteq> ''random'' \<Longrightarrow> mr \<noteq> ''probabilistic'' \<Longrightarrow>
     replace_angles mr cells sr r = (Inl MethodReplaceException, r)"
  by (simp add: replace_angles_def raise_def)

lemma map_invalid_select:
  assumes "ms \<noteq> ''random''" "ms \<noteq> ''probabilistic''"
    and "sigma_options (kw_get kw ''additional_options'') = Inr s"
  shows "map_to_near_clifford a b c t f ms mr kw r = (Inl MethodSelectException, r)"
  unfolding map_to_near_clifford_unfold assms(3)
  by (cases s) (simp add: select_columns_invalid[OF assms(1,2)])

lemma map_invalid_replace:
  assumes "mr \<noteq> ''closest''" "mr \<noteq> ''random''" "mr \<noteq> ''probabilistic''"
    and "sigma_options (kw_get kw ''additional_options'') = Inr (ss, sr)"
    and "select_columns ms a t (py_int (f * real t)) ss r = (Inr cols, r1)"
    and "take_columns a cols = Inr sel"
  shows "map_to_near_clifford a b c t f ms mr kw r = (Inl MethodReplaceException, r1)"
  unfolding map_to_near_clifford_unfold assms(4)
  by (simp add: assms(5,6) replace_angles_invalid[OF assms(1,2,3)])

lemma map_invalid_fails:
  assumes "(ms \<noteq> ''random'' \<and> ms \<noteq> ''probabilistic'')
           \<or> (mr \<noteq> ''closest'' \<and> mr \<noteq> ''random'' \<and> mr \<noteq> ''probabilistic'')"
  shows "\<exists>e r'. map_to_near_clifford a b c t f ms mr kw r = (Inl e, r')"
proof (cases "sigma_options (kw_get kw ''additional_options'')")
  case (Inl e)
  then show ?thesis by (simp add: map_to_near_clifford_options_error)
next
  case (Inr s)
  obtain ss sr where s: "s = (ss, sr)" by (cases s)
  show ?thesis
  proof (cases "ms \<noteq> ''random'' \<and> ms \<noteq> ''probabilistic''")
    case True
    then show ?thesis using map_invalid_select[OF _ _ Inr] by blast
  next
    case False
    with assms have mr: "mr \<noteq> ''closest''" "mr \<noteq> ''random''" "mr \<noteq> ''probabilistic''"
      by auto
    obtain v r1 where sel: "select_columns ms a t (py_int (f * real t)) ss r = (v, r1)"
      by (cases "select_columns ms a t (py_int (f * real t)) ss r")
    show ?thesis
    proof (cases v)
      case (Inl e)
      show ?thesis unfolding map_to_near_clifford_unfold Inr s
        by (simp add: sel Inl)
    next
      case cols: (Inr cols)
      show ?thesis
      proof (cases "take_columns a cols")
        case (Inl e)
        show ?thesis unfolding map_to_near_clifford_unfold Inr s
          by (simp add: sel cols Inl)
      next
        case t: (Inr sel')
        show ?thesis
          using map_invalid_replace[OF mr Inr[unfolded s] sel[unfolded cols] t] by blast
      qed
    qed
  qed
qed

lemma generate_invalid_fails:
  assumes "0 < n"
    and "(ms \<noteq> ''random'' \<and> ms \<noteq> ''probabilistic'')
           \<or> (mr \<noteq> ''closest'' \<and> mr \<noteq> ''random'' \<and> mr \<noteq> ''probabilistic'')"
  shows "\<exists>e r'. generate_training_circuits circ n f ms mr kw r = (Inl e, r')"
proof -
  have n: "0 < nat n" using assms(1) by simp
  obtain e r' where m: "map_to_near_clifford (non_cliff_cols circ) (cliff_cols circ) []
                (length (non_cliff_cols circ)) f ms mr (forwarded_kwargs kw) (classify_rng circ r)
              = (Inl e, r')"
    using map_invalid_fails[OF assms(2)] by blast
  note t = training_loop_pos_fail[of "nat n"
      "map_to_near_clifford (non_cliff_cols circ) (cliff_cols circ) []
                (length (non_cliff_cols circ)) f ms mr (forwarded_kwargs kw)"
      "classify_rng circ r" e r' "([], [], [])", OF n m]
  show ?thesis unfolding generate_preamble
    by (simp add: t)
qed

lemma sigma_options_empty_kw: "sigma_options (kw_get [] ''additional_options'') = Inr (1 / 2, 1 / 2)"
  by (simp add: kw_get_def sigma_options_none)

lemma select_random_single:
  "select_columns ''random'' a (Suc 0) 0 ss r = (Inr [0], r\<lparr>py_pos := Suc (py_pos r)\<rparr>)"
  by (simp add: select_columns_def sample_def randbelow_def remove_nth_def)

lemma is_clifford_body_det:
  assumes "\<not> at_midpoint (ang_scaled a)"
  shows "is_clifford_angle_body default_tol a r = (Inr (clifford_pure a), r)"
proof -
  from assms have F: "\<not> at_midpoint (ang_scaled (py_mod a (2 * pi)))" by (simp add: ang_scaled_idem)
  show ?thesis
    unfolding is_clifford_angle_body_def np_vectorize_scalar_def np_vectorize_def Let_def
    by (simp add: closest_det[OF F] ang_scaled_idem clifford_pure_def assms)
qed

lemma is_clifford_angle_single_det:
  assumes "\<not> at_midpoint (ang_scaled a)"
  shows "is_clifford_angle [Some a] r = (Inr [clifford_pure a], r)"
  unfolding is_clifford_angle_def np_vectorize_def
  by (simp add: on_float_def is_clifford_body_det[OF assms])

lemma rz_cols_single: "rz_cols [ZPow e q] = [encode_col 0 (ZPow e q)]"
  by (simp add: rz_cols_def encode_all_def encode_col_def gate_name_def)

lemma encode_col_rz_parameter: "parameter (encode_col i (ZPow e q)) = Some (e * pi)"
  by (simp add: encode_col_def gate_parameter_def)

lemma classify_single:
  assumes "\<not> at_midpoint (ang_scaled (e * pi))"
  shows "classify_rng [ZPow e q] r = r"
  unfolding classify_rng_def rz_cols_single
  by (simp only: list.map encode_col_rz_parameter is_clifford_angle_single_det[OF assms] snd_conv)

lemma cols_single_non_clifford:
  assumes "\<not> clifford_pure (e * pi)"
  shows "non_cliff_cols [ZPow e q] = [encode_col 0 (ZPow e q)]" "cliff_cols [ZPow e q] = []"
proof -
  have n: "\<not> is_cliff_col (encode_col 0 (ZPow e q))"
    unfolding is_cliff_col_def encode_col_rz_parameter using assms by simp
  show "non_cliff_cols [ZPow e q] = [encode_col 0 (ZPow e q)]"
    unfolding non_cliff_cols_def rz_cols_single using n by simp
  show "cliff_cols [ZPow e q] = []"
    unfolding cliff_cols_def rz_cols_single using n
    by (simp add: encode_all_def encode_col_def gate_name_def)
qed

lemma angle_three_tenths:
  "\<not> at_midpoint (ang_scaled (3 / 10 * pi))" "\<not> clifford_pure (3 / 10 * pi)"
proof -
  have e: "3 / 10 * pi = 3 / 5 * (pi / 2)" by simp
  have s: "ang_scaled (3 / 5 * (pi / 2)) = 3 / 5" by (rule ang_scaled_quarter) simp_all
  have m: "py_mod (3 / 5 * (pi / 2)) (2 * pi) = 3 / 5 * (pi / 2)" by (rule py_mod_quarter) simp_all
  have r1: "np_round (3 / 5) = 1" by (simp add: np_round_def)
  show "\<not> at_midpoint (ang_scaled (3 / 10 * pi))" unfolding e s by (simp add: at_midpoint_def)
  have "1 / 10 ^ 5 \<le> pi / 5" using pi_ge_two by simp
  then have "\<not> \<bar>pi / 2 - 3 / 5 * (pi / 2)\<bar> < default_tol"
    by (simp add: default_tol_def abs_if)
  then show "\<not> clifford_pure (3 / 10 * pi)"
    unfolding e clifford_pure_def s m r1 by (simp add: clifford_angles_nth)
qed

section \<open>Selection, sorting and replay: auxiliary facts\<close>

lemma remove_nth_set: "j < length xs \<Longrightarrow> distinct xs \<Longrightarrow> set (remove_nth j xs) = set xs - {xs ! j}"
proof -
  assume j: "j < length xs" and d: "distinct xs"
  have xs: "xs = take j xs @ xs ! j # drop (Suc j) xs" using j by (rule id_take_nth_drop)
  have "distinct (take j xs @ xs ! j # drop (Suc j) xs)" using d xs by simp
  then have "xs ! j \<notin> set (take j xs)" "xs ! j \<notin> set (drop (Suc j) xs)" by auto
  moreover have "set xs = set (take j xs) \<union> {xs ! j} \<union> set (drop (Suc j) xs)"
    by (subst xs) auto
  ultimately show ?thesis unfolding remove_nth_def by auto
qed

lemma remove_nth_distinct: "distinct xs \<Longrightarrow> distinct (remove_nth j xs)"
proof -
  assume d: "distinct xs"
  have "distinct (take j xs @ drop j xs)" using d by simp
  then have a: "distinct (take j xs)" "set (take j xs) \<inter> set (drop j xs) = {}"
    by (simp_all only: distinct_append)
  have b: "set (drop (Suc j) xs) \<subseteq> set (drop j xs)"
    by (rule set_drop_subset_set_drop) simp
  have c: "distinct (drop (Suc j) xs)" using d by simp
  show ?thesis unfolding remove_nth_def using a b c by auto
qed

lemma sample_pool_distinct:
  "sample_pool pool k r = (Inr xs, r') \<Longrightarrow> distinct pool \<Longrightarrow>
     distinct xs \<and> set xs \<subseteq> set pool \<and> length xs = k"
proof (induction k arbitrary: pool r xs r')
  case 0
  then show ?case by simp
next
  case (Suc k)
  from Suc.prems(1) have ne: "pool \<noteq> []" by (auto split: if_splits)
  define j where "j = py_draws r (py_pos r) mod length pool"
  have j: "j < length pool" unfolding j_def using ne by simp
  define r1 where "r1 = r\<lparr>py_pos := Suc (py_pos r)\<rparr>"
  have rb: "randbelow (length pool) r = (j, r1)" by (simp add: randbelow_def j_def r1_def)
  obtain ys where ys: "sample_pool (remove_nth j pool) k r1 = (Inr ys, r')" "xs = pool ! j # ys"
    using Suc.prems(1) ne unfolding sample_pool.simps rb
    by (auto split: sum.splits prod.splits)
  have d: "distinct (remove_nth j pool)" using Suc.prems(2) by (rule remove_nth_distinct)
  from Suc.IH[OF ys(1) d] have ih: "distinct ys" "set ys \<subseteq> set (remove_nth j pool)" "length ys = k"
    by auto
  have s: "set (remove_nth j pool) = set pool - {pool ! j}"
    using j Suc.prems(2) by (rule remove_nth_set)
  show ?case using ih s j unfolding ys(2) by auto
qed


lemma weighted_index_lt: "ws \<noteq> [] \<Longrightarrow> weighted_index ws u < length ws"
  by (induction ws u rule: weighted_index.induct) auto

lemma map_fst_remove_nth: "map fst (remove_nth j pool) = remove_nth j (map fst pool)"
  by (simp add: remove_nth_def take_map drop_map)

lemma choice_pool_distinct:
  "choice_pool pool k r = (Inr xs, r') \<Longrightarrow> distinct (map fst pool) \<Longrightarrow>
     distinct xs \<and> set xs \<subseteq> set (map fst pool) \<and> length xs = k"
proof (induction k arbitrary: pool r xs r')
  case 0
  then show ?case by simp
next
  case (Suc k)
  from Suc.prems(1) have ne: "pool \<noteq> []" by (auto split: if_splits)
  define u where "u = frac (np_draws r (np_pos r))"
  define r1 where "r1 = r\<lparr>np_pos := Suc (np_pos r)\<rparr>"
  have nu: "np_uniform r = (u, r1)" by (simp add: np_uniform_def u_def r1_def)
  define j where "j = weighted_index (map snd pool) (u * sum_list (map snd pool))"
  have j: "j < length pool" unfolding j_def using weighted_index_lt[of "map snd pool"] ne by simp
  have step: "choice_pool pool (Suc k) r =
      (case choice_pool (remove_nth j pool) k r1 of
         (Inl e, r'') \<Rightarrow> (Inl e, r'')
       | (Inr zs, r'') \<Rightarrow> (Inr (fst (pool ! j) # zs), r''))"
    using ne unfolding j_def by (simp add: nu Let_def)
  obtain ys where ys: "choice_pool (remove_nth j pool) k r1 = (Inr ys, r')" "xs = fst (pool ! j) # ys"
    using Suc.prems(1) unfolding step
    by (auto split: sum.splits prod.splits)
  have d: "distinct (map fst (remove_nth j pool))"
    unfolding map_fst_remove_nth using Suc.prems(2) by (rule remove_nth_distinct)
  from Suc.IH[OF ys(1) d]
  have ih: "distinct ys" "set ys \<subseteq> set (map fst (remove_nth j pool))" "length ys = k"
    by auto
  have s: "set (map fst (remove_nth j pool)) = set (map fst pool) - {map fst pool ! j}"
    unfolding map_fst_remove_nth using j Suc.prems(2) by (intro remove_nth_set) simp_all
  have n: "map fst pool ! j = fst (pool ! j)" using j by simp
  have m: "fst (pool ! j) \<in> set (map fst pool)" using j by (metis n nth_mem length_map)
  show ?case using ih s m unfolding ys(2) n by auto
qed

lemma np_random_choice_distinct:
  assumes "np_random_choice a sz p r = (Inr xs, r')" "distinct a"
  shows "distinct xs \<and> set xs \<subseteq> set a"
proof -
  from assms(1) have l: "length p = length a" and c: "choice_pool (zip a p) (nat sz) r = (Inr xs, r')"
    unfolding np_random_choice_def by (auto split: if_splits)
  have m: "map fst (zip a p) = a" using l by simp
  from choice_pool_distinct[OF c] assms(2) show ?thesis unfolding m by simp
qed

lemma sample_distinct:
  assumes "sample a k r = (Inr xs, r')" "distinct a"
  shows "distinct xs \<and> set xs \<subseteq> set a"
proof -
  from assms(1) have "sample_pool a (nat k) r = (Inr xs, r')"
    unfolding sample_def by (auto split: if_splits)
  from sample_pool_distinct[OF this assms(2)] show ?thesis by simp
qed

lemma select_columns_distinct:
  assumes "select_columns ms a t N ss r = (Inr cols, r')"
  shows "distinct cols \<and> set cols \<subseteq> {..<t}"
proof (cases "ms = ''random''")
  case True
  with assms have "sample [0..<t] (int t - N) r = (Inr cols, r')"
    by (simp add: select_columns_def)
  from sample_distinct[OF this] show ?thesis by auto
next
  case False
  show ?thesis
  proof (cases "ms = ''probabilistic''")
    case p: True
    from assms False p obtain probs r1 where
      "np_random_choice [0..<t] (int t - N) (map (\<lambda>k. k / sum_list probs) probs) r1 = (Inr cols, r')"
      by (auto simp: select_columns_def bind_def Let_def split: sum.splits prod.splits)
    from np_random_choice_distinct[OF this] show ?thesis by auto
  next
    case np: False
    with assms False show ?thesis by (simp add: select_columns_def raise_def)
  qed
qed
lemma map_rand_length:
  "map_rand f xs r = (Inr ys, r') \<Longrightarrow> length ys = length xs"
proof (induction xs arbitrary: r ys)
  case Nil
  then show ?case by simp
next
  case (Cons x xs)
  then show ?case by (auto split: sum.splits prod.splits)
qed

lemma np_vectorize_length:
  "np_vectorize f xs r = (Inr ys, r') \<Longrightarrow> length ys = length xs"
  unfolding np_vectorize_def
  by (auto split: list.splits sum.splits prod.splits dest: map_rand_length)

lemma replace_angles_length:
  "replace_angles mr cells sr r = (Inr angs, r') \<Longrightarrow> length angs = length cells"
  unfolding replace_angles_def
  by (auto simp: raise_def split: if_splits dest: np_vectorize_length)

lemma take_columns_Inr:
  "take_columns xs idxs = Inr sel \<Longrightarrow> sel = map (\<lambda>i. xs ! i) idxs \<and> set idxs \<subseteq> {..<length xs}"
  unfolding take_columns_def
  by (auto simp: filter_empty_conv split: if_splits)

lemma np_delete_nth:
  "np_delete xs idxs = map (\<lambda>i. xs ! i) (filter (\<lambda>i. i \<notin> set idxs) [0..<length xs])"
proof -
  have z: "zip [0..<length xs] xs = map (\<lambda>i. (i, xs ! i)) [0..<length xs]"
    by (intro nth_equalityI) simp_all
  show ?thesis unfolding np_delete_def z by (simp add: filter_map comp_def)
qed

lemma take_delete_mset:
  assumes "distinct idxs" "set idxs \<subseteq> {..<length xs}"
  shows "mset (map (\<lambda>i. xs ! i) idxs) + mset (np_delete xs idxs) = mset xs"
proof -
  let ?rest = "filter (\<lambda>i. i \<notin> set idxs) [0..<length xs]"
  have d: "distinct (idxs @ ?rest)" using assms(1) by auto
  have s: "set (idxs @ ?rest) = set [0..<length xs]" using assms(2) by auto
  have m: "mset (idxs @ ?rest) = mset [0..<length xs]"
    using d s by (simp only: set_eq_iff_mset_eq_distinct[symmetric] distinct_upt)
  have "mset (map (\<lambda>i. xs ! i) idxs) + mset (np_delete xs idxs)
          = mset (map (\<lambda>i. xs ! i) (idxs @ ?rest))"
    unfolding np_delete_nth by simp
  also have "\<dots> = image_mset (\<lambda>i. xs ! i) (mset (idxs @ ?rest))" by (simp only: mset_map)
  also have "\<dots> = mset (map (\<lambda>i. xs ! i) [0..<length xs])" unfolding m by (simp only: mset_map)
  also have "map (\<lambda>i. xs ! i) [0..<length xs] = xs" by (rule map_nth)
  finally show ?thesis .
qed
lemma encode_all_nth:
  "i < length circ \<Longrightarrow> encode_all circ ! i = encode_col i (circ ! i)"
  by (simp add: encode_all_def)

lemma encode_all_length: "length (encode_all circ) = length circ"
  by (simp add: encode_all_def)

lemma encode_all_orders: "map order (encode_all circ) = [0..<length circ]"
  by (intro nth_equalityI) (simp_all add: encode_all_length encode_all_nth encode_col_def)

lemma stems_from_encode:
  assumes "list_all recognised circ" "c \<in> set (encode_all circ)"
  shows "stems_from circ c"
proof -
  from assms(2) obtain i where i: "i < length circ" "c = encode_col i (circ ! i)"
    by (auto simp: in_set_conv_nth encode_all_length encode_all_nth)
  have o: "order c = i" by (simp add: i(2) encode_col_def)
  have r: "recognised (circ ! i)" using assms(1) i(1) by (simp add: list_all_length)
  have p: "name c = ''rz'' \<Longrightarrow> parameter c \<noteq> None"
    unfolding i(2) by (cases "circ ! i") (auto simp: encode_col_def gate_name_def gate_parameter_def)
  show ?thesis unfolding stems_from_def o using i r p by auto
qed

lemma cols_partition:
  "mset (cliff_cols circ) + mset (non_cliff_cols circ) = mset (encode_all circ)"
proof -
  have "mset (filter is_cliff_col (rz_cols circ)) + mset (filter (\<lambda>c. \<not> is_cliff_col c) (rz_cols circ))
          = mset (rz_cols circ)"
    by (simp only: mset_filter multiset_partition[symmetric])
  moreover have "mset (filter (\<lambda>c. name c \<noteq> ''rz'') (encode_all circ)) + mset (rz_cols circ)
          = mset (encode_all circ)"
    unfolding rz_cols_def
    by (simp only: mset_filter add.commute[of "filter_mset (\<lambda>c. name c \<noteq> ''rz'') _"]
        multiset_partition[symmetric])
  ultimately show ?thesis
    unfolding cliff_cols_def non_cliff_cols_def by (simp add: add.assoc)
qed

lemma non_cliff_cols_subset:
  "c \<in> set (non_cliff_cols circ) \<Longrightarrow> c \<in> set (encode_all circ) \<and> name c = ''rz''"
  by (simp add: non_cliff_cols_def rz_cols_def)

lemma cliff_cols_subset: "c \<in> set (cliff_cols circ) \<Longrightarrow> c \<in> set (encode_all circ)"
  by (auto simp: cliff_cols_def rz_cols_def)

lemma set_parameters_orders:
  "length angs = length sel \<Longrightarrow> map order (set_parameters sel angs) = map order sel"
  unfolding set_parameters_def
  by (intro nth_equalityI) simp_all

lemma set_parameters_mem:
  "x \<in> set (set_parameters sel angs) \<Longrightarrow> \<exists>c a. c \<in> set sel \<and> x = c\<lparr>parameter := Some a\<rparr>"
  unfolding set_parameters_def
  by (auto simp: in_set_zip) (metis nth_mem)

lemma stems_from_update:
  assumes "stems_from circ c" "name c = ''rz''"
  shows "stems_from circ (c\<lparr>parameter := Some a\<rparr>)"
  using assms unfolding stems_from_def by simp
lemma projected_orders:
  assumes d: "distinct cols" and s: "set cols \<subseteq> {..<length (non_cliff_cols circ)}"
    and l: "length angs = length cols"
  shows "map order (sort_key order
           ((cliff_cols circ @ set_parameters (map (\<lambda>i. non_cliff_cols circ ! i) cols) angs)
             @ np_delete (non_cliff_cols circ) cols)) = [0..<length circ]"
proof -
  let ?ncc = "non_cliff_cols circ"
  let ?sel = "map (\<lambda>i. ?ncc ! i) cols"
  let ?new = "(cliff_cols circ @ set_parameters ?sel angs) @ np_delete ?ncc cols"
  have so: "map order (set_parameters ?sel angs) = map order ?sel"
    by (rule set_parameters_orders) (simp add: l)
  have "mset (map order ?new)
          = mset (map order (cliff_cols circ)) + mset (map order ?sel) + mset (map order (np_delete ?ncc cols))"
    by (simp add: so)
  also have "\<dots> = image_mset order (mset (cliff_cols circ) + (mset ?sel + mset (np_delete ?ncc cols)))"
    by (simp only: mset_map image_mset_union add.assoc)
  also have "mset ?sel + mset (np_delete ?ncc cols) = mset ?ncc"
    by (rule take_delete_mset[OF d s])
  also have "image_mset order (mset (cliff_cols circ) + mset ?ncc) = mset (map order (encode_all circ))"
    by (simp only: cols_partition mset_map)
  finally have m: "mset (map order ?new) = mset [0..<length circ]"
    by (simp only: encode_all_orders)
  have "mset (map order (sort_key order ?new)) = mset [0..<length circ]"
    using m by (simp only: mset_map mset_sort)
  moreover have "sorted (map order (sort_key order ?new))" by (rule sorted_sort_key)
  ultimately have "sort [0..<length circ] = map order (sort_key order ?new)"
    by (rule properties_for_sort)
  moreover have "sort [0..<length circ] = [0..<length circ]"
    by (rule sorted_sort_id) simp
  ultimately show ?thesis by simp
qed

lemma projected_stems:
  assumes r: "list_all recognised circ" and s: "set cols \<subseteq> {..<length (non_cliff_cols circ)}"
    and c: "c \<in> set (sort_key order
           ((cliff_cols circ @ set_parameters (map (\<lambda>i. non_cliff_cols circ ! i) cols) angs)
             @ np_delete (non_cliff_cols circ) cols))"
  shows "stems_from circ c"
proof -
  let ?ncc = "non_cliff_cols circ"
  from c have "c \<in> set (cliff_cols circ)
      \<or> c \<in> set (set_parameters (map (\<lambda>i. ?ncc ! i) cols) angs)
      \<or> c \<in> set (np_delete ?ncc cols)"
    by (simp only: set_sort set_append Un_iff) blast
  then show ?thesis
  proof (elim disjE)
    assume "c \<in> set (cliff_cols circ)"
    then show ?thesis using stems_from_encode[OF r] cliff_cols_subset by blast
  next
    assume "c \<in> set (set_parameters (map (\<lambda>i. ?ncc ! i) cols) angs)"
    then obtain c0 a where c0: "c0 \<in> set (map (\<lambda>i. ?ncc ! i) cols)" "c = c0\<lparr>parameter := Some a\<rparr>"
      using set_parameters_mem by blast
    from c0(1) s have "c0 \<in> set ?ncc" by auto
    then have "stems_from circ c0" "name c0 = ''rz''"
      using stems_from_encode[OF r] non_cliff_cols_subset by blast+
    then show ?thesis unfolding c0(2) by (rule stems_from_update)
  next
    assume "c \<in> set (np_delete ?ncc cols)"
    then have "c \<in> set ?ncc" unfolding np_delete_nth by auto
    then show ?thesis using stems_from_encode[OF r] non_cliff_cols_subset by blast
  qed
qed

lemma rebuild_stems:
  assumes "stems_from circ c"
  shows "\<exists>opn. rebuild c = Inr [opn] \<and> gate_name opn = gate_name (circ ! order c)
            \<and> op_qubits opn = op_qubits (circ ! order c)"
proof (cases "name c = ''rz''")
  case True
  with assms obtain p where p: "parameter c = Some p"
    and e: "c\<lparr>parameter := None\<rparr> = (encode_col (order c) (circ ! order c))\<lparr>parameter := None\<rparr>"
    unfolding stems_from_def by auto
  from arg_cong[OF e, of name] True have n: "gate_name (circ ! order c) = ''rz''"
    by (simp add: encode_col_def)
  from arg_cong[OF e, of qubit] have q: "qubit c = gate_qubit (circ ! order c)"
    by (simp add: encode_col_def)
  from n obtain ex qb where z: "circ ! order c = ZPow ex qb"
    by (cases "circ ! order c") (auto simp: gate_name_def split: if_splits)
  show ?thesis unfolding rebuild_def
    by (simp add: True p q z gate_qubit_def gate_name_def op_qubits_def)
next
  case False
  with assms have e: "c = encode_col (order c) (circ ! order c)" and r: "recognised (circ ! order c)"
    unfolding stems_from_def by auto
  have n: "name c = gate_name (circ ! order c)" "parameter c = gate_parameter (circ ! order c)"
    "qubit c = gate_qubit (circ ! order c)" "operation c = circ ! order c"
    by (subst e, simp add: encode_col_def)+
  show ?thesis
  proof (cases "circ ! order c")
    case (CX ex q0 q1)
    show ?thesis unfolding rebuild_def n
      by (simp add: CX gate_name_def gate_qubit_def op_qubits_def)
  next
    case (ZPow ex qb)
    with False n(1) show ?thesis by (simp add: gate_name_def)
  next
    case (XPow ex qb)
    show ?thesis unfolding rebuild_def n
      by (simp add: XPow gate_name_def gate_qubit_def gate_parameter_def op_qubits_def)
  next
    case (Measure qb qs)
    show ?thesis unfolding rebuild_def n
      by (simp add: Measure gate_name_def gate_qubit_def op_qubits_def)
  next
    case (Other qs)
    with r show ?thesis by (simp add: recognised_def)
  qed
qed
lemma array_to_circuit_stems:
  assumes "\<And>c. c \<in> set cs \<Longrightarrow> stems_from circ c"
  shows "\<exists>ops. array_to_circuit cs acc = Inr (acc @ ops) \<and> length ops = length cs
           \<and> (\<forall>k<length cs. gate_name (ops ! k) = gate_name (circ ! order (cs ! k))
                 \<and> op_qubits (ops ! k) = op_qubits (circ ! order (cs ! k)))"
  using assms
proof (induction cs arbitrary: acc)
  case Nil
  show ?case by simp
next
  case (Cons c cs)
  obtain opn where o: "rebuild c = Inr [opn]" "gate_name opn = gate_name (circ ! order c)"
      "op_qubits opn = op_qubits (circ ! order c)"
    using rebuild_stems[OF Cons.prems[of c]] by auto
  obtain ops where ops: "array_to_circuit cs (acc @ [opn]) = Inr ((acc @ [opn]) @ ops)"
      "length ops = length cs"
      "\<forall>k<length cs. gate_name (ops ! k) = gate_name (circ ! order (cs ! k))
                 \<and> op_qubits (ops ! k) = op_qubits (circ ! order (cs ! k))"
    using Cons.IH[of "acc @ [opn]"] Cons.prems by auto
  have "array_to_circuit (c # cs) acc = Inr (acc @ (opn # ops))"
    by (simp add: o(1) ops(1))
  moreover have "length (opn # ops) = length (c # cs)" by (simp add: ops(2))
  moreover have "\<forall>k<length (c # cs). gate_name ((opn # ops) ! k) = gate_name (circ ! order ((c # cs) ! k))
                 \<and> op_qubits ((opn # ops) ! k) = op_qubits (circ ! order ((c # cs) ! k))"
    using o(2,3) ops(3) by (auto simp: nth_Cons split: nat.splits)
  ultimately show ?case by blast
qed

lemma map_to_near_clifford_preserves:
  assumes run: "map_to_near_clifford (non_cliff_cols circ) (cliff_cols circ) [] t f ms mr kw r
                  = (Inr (out, orig, repl), r')"
    and rec: "list_all recognised circ"
  shows "length out = length circ
         \<and> (\<forall>i<length circ. gate_name (out ! i) = gate_name (circ ! i)
               \<and> op_qubits (out ! i) = op_qubits (circ ! i))
         \<and> (\<exists>tab. map order tab = [0..<length circ] \<and> list_all (stems_from circ) tab
               \<and> array_to_circuit tab [] = Inr out)"
proof -
  let ?ncc = "non_cliff_cols circ"
  from run obtain ss sr cols r1 sel angs r2 where
      sc: "select_columns ms ?ncc t (py_int (f * real t)) ss r = (Inr cols, r1)"
    and tc: "take_columns ?ncc cols = Inr sel"
    and ra: "replace_angles mr (map parameter sel) sr r1 = (Inr angs, r2)"
    and ac: "array_to_circuit
               (sort_key order ((cliff_cols circ @ set_parameters sel angs) @ np_delete ?ncc cols)) []
             = Inr out"
    unfolding map_to_near_clifford_unfold
    by (auto split: sum.splits prod.splits)
  from select_columns_distinct[OF sc] have d: "distinct cols" by simp
  from take_columns_Inr[OF tc] have sel: "sel = map (\<lambda>i. ?ncc ! i) cols"
    and s: "set cols \<subseteq> {..<length ?ncc}" by simp_all
  from replace_angles_length[OF ra] have l: "length angs = length cols" by (simp add: sel)
  let ?tab = "sort_key order ((cliff_cols circ @ set_parameters sel angs) @ np_delete ?ncc cols)"
  have o: "map order ?tab = [0..<length circ]"
    unfolding sel by (rule projected_orders[OF d s l])
  have st: "\<And>c. c \<in> set ?tab \<Longrightarrow> stems_from circ c"
    unfolding sel by (rule projected_stems[OF rec s])
  have len: "length ?tab = length circ"
    using arg_cong[OF o, of length] by simp
  have ok: "\<And>k. k < length circ \<Longrightarrow> order (?tab ! k) = k"
  proof -
    fix k assume k: "k < length circ"
    have "map order ?tab ! k = [0..<length circ] ! k" by (simp only: o)
    then show "order (?tab ! k) = k" using k len by simp
  qed
  from array_to_circuit_stems[of ?tab circ "[]", OF st] ac
  obtain ops where ops: "out = ops" "length ops = length ?tab"
      "\<forall>k<length ?tab. gate_name (ops ! k) = gate_name (circ ! order (?tab ! k))
                 \<and> op_qubits (ops ! k) = op_qubits (circ ! order (?tab ! k))"
    by auto
  have la: "list_all (stems_from circ) ?tab" using st by (simp add: list_all_iff)
  have "\<exists>tab. map order tab = [0..<length circ] \<and> list_all (stems_from circ) tab
               \<and> array_to_circuit tab [] = Inr out"
    using o la ac by blast
  then show ?thesis using ops ok len by auto
qed

lemma training_loop_circuits:
  assumes "training_loop n step (cs0, os0, rs0) r = (Inr (cs, os, rs), r')" "out \<in> set cs"
  shows "out \<in> set cs0 \<or> (\<exists>r1 o1 a1 r2. step r1 = (Inr (out, o1, a1), r2))"
  using assms
proof (induction n arbitrary: cs0 os0 rs0 r)
  case 0
  then show ?case by simp
next
  case (Suc n)
  from Suc.prems(1) obtain c1 o1 a1 r1 where
      s: "step r = (Inr (c1, o1, a1), r1)"
    and t: "training_loop n step (cs0 @ [c1], os0 @ [o1], rs0 @ [a1]) r1 = (Inr (cs, os, rs), r')"
    by (auto split: sum.splits prod.splits)
  from Suc.IH[OF t Suc.prems(2)] s show ?case by auto
qed

lemma np_vectorize_single:
  assumes "\<And>r'. f x r' = (Inr y, r')"
  shows "np_vectorize f [x] r = (Inr [y], r)"
  by (simp add: np_vectorize_def assms)

lemma closest_three_tenths:
  "np_vectorize (on_float closest_clifford_body) [Some (3 / 10 * pi)] r = (Inr [pi / 2], r)"
proof (rule np_vectorize_single)
  fix r'
  have e: "3 / 10 * pi = 3 / 5 * (pi / 2)" by simp
  have s: "ang_scaled (3 / 5 * (pi / 2)) = 3 / 5" by (rule ang_scaled_quarter) simp_all
  have r1: "np_round (3 / 5) = 1" by (simp add: np_round_def)
  have c: "closest_clifford_body (3 / 10 * pi) r' = (Inr (pi / 2), r')"
    unfolding closest_det[OF angle_three_tenths(1)] unfolding e s r1
    by (simp add: clifford_angles_nth)
  show "on_float closest_clifford_body (Some (3 / 10 * pi)) r' = (Inr (pi / 2), r')"
    unfolding on_float_def by (simp only: option.case c)
qed

lemma witness_columns:
  "non_cliff_cols [ZPow (3 / 10) 0, CX 1 0 1] = [encode_col 0 (ZPow (3 / 10) 0)]"
  "cliff_cols [ZPow (3 / 10) 0, CX 1 0 1] = [encode_col 1 (CX 1 0 1)]"
  "classify_rng [ZPow (3 / 10) 0, CX 1 0 1] r = r"
proof -
  have rz: "rz_cols [ZPow (3 / 10) 0, CX 1 0 1] = [encode_col 0 (ZPow (3 / 10) 0)]"
    by (simp add: rz_cols_def encode_all_def encode_col_def gate_name_def)
  have n: "\<not> is_cliff_col (encode_col 0 (ZPow (3 / 10) 0))"
    unfolding is_cliff_col_def encode_col_rz_parameter using angle_three_tenths(2) by simp
  show "non_cliff_cols [ZPow (3 / 10) 0, CX 1 0 1] = [encode_col 0 (ZPow (3 / 10) 0)]"
    unfolding non_cliff_cols_def rz using n by simp
  show "cliff_cols [ZPow (3 / 10) 0, CX 1 0 1] = [encode_col 1 (CX 1 0 1)]"
    unfolding cliff_cols_def rz using n
    by (simp add: encode_all_def encode_col_def gate_name_def)
  show "classify_rng [ZPow (3 / 10) 0, CX 1 0 1] r = r"
    unfolding classify_rng_def rz
    by (simp only: list.map encode_col_rz_parameter
        is_clifford_angle_single_det[OF angle_three_tenths(1)] snd_conv)
qed

lemma witness_run:
  "generate_training_circuits [ZPow (3 / 10) 0, CX 1 0 1] 1 0 ''random'' ''closest'' [] rng0
     = (Inr ([[ZPow (1 / 2) 0, CX 1 0 1]], [[Some (3 / 10 * pi)]], [[Some (pi / 2)]]),
        rng0\<lparr>py_pos := Suc (py_pos rng0)\<rparr>)"
proof -
  have a: "list_all recognised [ZPow (3 / 10) 0, CX 1 0 1]" by (simp add: recognised_def)
  have b: "rz_angles [ZPow (3 / 10) 0, CX 1 0 1] \<noteq> []" by (simp add: rz_angles_def)
  have f: "forwarded_kwargs [] = []" by (simp add: forwarded_kwargs_def)
  have p: "parameter (encode_col 0 (ZPow (3 / 10) 0)) = Some (3 / 10 * pi)"
    by (rule encode_col_rz_parameter)
  let ?c0 = "encode_col 0 (ZPow (3 / 10) 0)"
  let ?c1 = "encode_col 1 (CX 1 0 1)"
  let ?r1 = "rng0\<lparr>py_pos := Suc (py_pos rng0)\<rparr>"
  have sel: "select_columns ''random'' [?c0] (Suc 0) (py_int (0 * real (Suc 0))) (1 / 2) rng0
               = (Inr [0], ?r1)"
    by (simp add: py_int_def select_random_single)
  have tk: "take_columns [?c0] [0] = Inr [?c0]" by (simp add: take_columns_def)
  have ra0: "replace_angles ''closest'' cells sr = np_vectorize (on_float closest_clifford_body) cells"
    for cells sr by (simp add: replace_angles_def)
  have ra: "replace_angles ''closest'' [Some (3 / 10 * pi)] (1 / 2) ?r1 = (Inr [pi / 2], ?r1)"
    unfolding ra0 by (rule closest_three_tenths)
  have tab: "sort_key order (([?c1] @ set_parameters [?c0] [pi / 2]) @ np_delete [?c0] [0])
               = [?c0\<lparr>parameter := Some (pi / 2)\<rparr>, ?c1]"
    by (simp add: set_parameters_def np_delete_def encode_col_def)
  have atc: "array_to_circuit [?c0\<lparr>parameter := Some (pi / 2)\<rparr>, ?c1] []
               = Inr [ZPow (1 / 2) 0, CX 1 0 1]"
    by (simp add: encode_col_def rebuild_def gate_name_def gate_parameter_def gate_qubit_def)
  have m: "map_to_near_clifford [?c0] [?c1] [] (Suc 0) 0 ''random'' ''closest'' [] rng0
       = (Inr ([ZPow (1 / 2) 0, CX 1 0 1], [Some (3 / 10 * pi)], [Some (pi / 2)]), ?r1)"
    unfolding map_to_near_clifford_unfold sigma_options_empty_kw
    by (simp only: sel tk ra tab atc sum.case prod.case list.map p)
       (simp add: set_parameters_def)
  have m': "map_to_near_clifford [?c0] [encode_col (Suc 0) (CX 1 0 (Suc 0))] [] (Suc 0) 0
               ''random'' ''closest'' [] rng0
       = (Inr ([ZPow (1 / 2) 0, CX 1 0 (Suc 0)], [Some (3 * pi / 10)], [Some (pi / 2)]), ?r1)"
    using m by simp
  show ?thesis
    unfolding generate_preamble f witness_columns
    using a b by (simp add: m')
qed


section \<open>Closure of the oracle\<close>

text \<open>
  Claim C8. For every angle and every state of the random source (hence every outcome of
  the tie-break), \<open>_closest_clifford\<close> returns a member of \<open>CLIFFORD_ANGLES\<close>, and
  \<open>_is_clifford_angle\<close> (default tolerance) answers True on that member, whatever the
  random source does during the check.
\<close>

theorem nearest_clifford_closure:
  "\<exists>c r'. closest_clifford_body theta r = (Inr c, r') \<and> c \<in> set CLIFFORD_ANGLES
       \<and> (\<exists>r''. is_clifford_angle_body default_tol c r2 = (Inr True, r''))"
proof -
  obtain c r' where c: "closest_clifford_body theta r = (Inr c, r')" "c \<in> set CLIFFORD_ANGLES"
    using closest_total by blast
  obtain r'' where i: "is_clifford_angle_body default_tol c r2 = (Inr (clifford_pure c), r'')"
    using is_clifford_body_value by blast
  have "clifford_pure c" by (rule clifford_pure_mem[OF c(2)])
  with c i show ?thesis by auto
qed

section \<open>The nearest Clifford angle\<close>

text \<open>
  Claim C7, as amended. With \<open>s = (\<theta> mod 2\<pi>) / (\<pi>/2)\<close>: when the guard of
  \<open>_closest_clifford\<close> holds (each of \<open>|2s - 1|\<close>, \<open>|2s - 3|\<close>, \<open>|2s - 5|\<close> exceeds
  \<open>1e-6\<close>, that is, \<open>s\<close> is farther than \<open>5e-7\<close> from each of 0.5, 1.5, 2.5) the result
  is \<open>CLIFFORD_ANGLES[round(s) mod 4]\<close> and no random draw is made; when \<open>s\<close> is at a
  midpoint \<open>j + 0.5\<close> or up to \<open>5e-7\<close> above it, one draw of \<open>choice\<close> decides between
  \<open>CLIFFORD_ANGLES[j]\<close> and \<open>CLIFFORD_ANGLES[j + 1]\<close>, so both are reachable.
\<close>

theorem nearest_clifford_amended:
  "(\<not> at_midpoint (ang_scaled theta) \<longrightarrow>
      closest_clifford_body theta r =
        (Inr (CLIFFORD_ANGLES ! nat (np_round (ang_scaled theta) mod 4)), r))
   \<and> (0 \<le> j \<and> j \<le> 2 \<and> of_int j + 1 / 2 \<le> ang_scaled theta
        \<and> ang_scaled theta \<le> of_int j + 1 / 2 + 1 / (2 * 10 ^ 6) \<longrightarrow>
      closest_clifford_body theta r =
        (Inr (CLIFFORD_ANGLES ! nat (if py_draws r (py_pos r) mod 2 = 0 then j else j + 1)),
         r\<lparr>py_pos := Suc (py_pos r)\<rparr>))
   \<and> (at_midpoint (ang_scaled theta) \<longleftrightarrow>
        (\<bar>ang_scaled theta - 1 / 2\<bar> \<le> 1 / (2 * 10 ^ 6)
         \<or> \<bar>ang_scaled theta - 3 / 2\<bar> \<le> 1 / (2 * 10 ^ 6)
         \<or> \<bar>ang_scaled theta - 5 / 2\<bar> \<le> 1 / (2 * 10 ^ 6)))"
proof (intro conjI impI)
  assume "\<not> at_midpoint (ang_scaled theta)"
  then show "closest_clifford_body theta r =
        (Inr (CLIFFORD_ANGLES ! nat (np_round (ang_scaled theta) mod 4)), r)"
    by (rule closest_det)
next
  assume a: "0 \<le> j \<and> j \<le> 2 \<and> of_int j + 1 / 2 \<le> ang_scaled theta
        \<and> ang_scaled theta \<le> of_int j + 1 / 2 + 1 / (2 * 10 ^ 6)"
  then have mid: "at_midpoint (ang_scaled theta)" using above_midpoint by blast
  have l: "py_int (ang_scaled theta - 1 / 2) = j"
    using a by (intro py_int_above) auto
  have "real_of_int (j + 1) \<le> ang_scaled theta + 1 / 2" "ang_scaled theta + 1 / 2 < real_of_int (j + 1) + 1"
    using a by auto
  then have u: "py_int (ang_scaled theta + 1 / 2) = j + 1"
    using a by (intro py_int_above) auto
  show "closest_clifford_body theta r =
        (Inr (CLIFFORD_ANGLES ! nat (if py_draws r (py_pos r) mod 2 = 0 then j else j + 1)),
         r\<lparr>py_pos := Suc (py_pos r)\<rparr>)"
    unfolding closest_tie[OF mid] using l u by simp
next
  show "at_midpoint (ang_scaled theta) \<longleftrightarrow>
        (\<bar>ang_scaled theta - 1 / 2\<bar> \<le> 1 / (2 * 10 ^ 6)
         \<or> \<bar>ang_scaled theta - 3 / 2\<bar> \<le> 1 / (2 * 10 ^ 6)
         \<or> \<bar>ang_scaled theta - 5 / 2\<bar> \<le> 1 / (2 * 10 ^ 6))"
    by (rule at_midpoint_iff)
qed


text \<open>
  The amended claim at \<open>s = 0.6\<close> (no tie) and at \<open>s = 0.5\<close> with both outcomes of the draw.
\<close>

theorem nearest_clifford_amended_witness:
  "closest_clifford_body (3 / 5 * (pi / 2)) rng0 = (Inr (pi / 2), rng0)
   \<and> closest_clifford_body (1 / 2 * (pi / 2)) rng0 = (Inr 0, rng0\<lparr>py_pos := 1\<rparr>)
   \<and> closest_clifford_body (1 / 2 * (pi / 2)) rng1 = (Inr (pi / 2), rng1\<lparr>py_pos := 1\<rparr>)"
proof -
  have s1: "ang_scaled (3 / 5 * (pi / 2)) = 3 / 5" by (rule ang_scaled_quarter) simp_all
  have s2: "ang_scaled (1 / 2 * (pi / 2)) = 1 / 2" by (rule ang_scaled_quarter) simp_all
  have n1: "\<not> at_midpoint (3 / 5)" by (simp add: at_midpoint_def)
  have r1: "np_round (3 / 5) = 1" by (simp add: np_round_def)
  have a: "closest_clifford_body (3 / 5 * (pi / 2)) rng0 = (Inr (pi / 2), rng0)"
    using nearest_clifford_amended[of "3 / 5 * (pi / 2)" rng0 0]
    unfolding s1 r1 using n1 by (simp add: clifford_angles_nth)
  have b: "closest_clifford_body (1 / 2 * (pi / 2)) rng0 = (Inr 0, rng0\<lparr>py_pos := 1\<rparr>)"
    using nearest_clifford_amended[of "1 / 2 * (pi / 2)" rng0 0]
    unfolding s2 by (simp add: clifford_angles_nth rng0_def)
  have c: "closest_clifford_body (1 / 2 * (pi / 2)) rng1 = (Inr (pi / 2), rng1\<lparr>py_pos := 1\<rparr>)"
    using nearest_clifford_amended[of "1 / 2 * (pi / 2)" rng1 0]
    unfolding s2 by (simp add: clifford_angles_nth rng1_def)
  from a b c show ?thesis by simp
qed

text \<open>
  The claim as stated fails at \<open>s = 0.5 + 7.5e-7\<close>: \<open>s\<close> is within \<open>1e-6\<close> of the
  midpoint 0.5, yet the result is always \<open>\<pi>/2\<close>, with no draw; the angle 0 is never
  returned.
\<close>

theorem nearest_clifford_midpoint_counterexample:
  "\<bar>ang_scaled (2000003 / 4000000 * (pi / 2)) - 1 / 2\<bar> \<le> 1 / 10 ^ 6
   \<and> (\<forall>r. closest_clifford_body (2000003 / 4000000 * (pi / 2)) r = (Inr (pi / 2), r))"
proof -
  have s: "ang_scaled (2000003 / 4000000 * (pi / 2)) = 2000003 / 4000000"
    by (rule ang_scaled_quarter) simp_all
  have n: "\<not> at_midpoint (ang_scaled (2000003 / 4000000 * (pi / 2)))"
    unfolding s by (simp add: at_midpoint_def)
  have r: "np_round (2000003 / 4000000) = 1" by (simp add: np_round_def)
  have "closest_clifford_body (2000003 / 4000000 * (pi / 2)) r' = (Inr (pi / 2), r')" for r'
    unfolding closest_det[OF n] unfolding s r by (simp add: clifford_angles_nth)
  then show ?thesis unfolding s by simp
qed

section \<open>count\_non\_cliffords\<close>

text \<open>
  Claim C9, as amended. \<open>count_non_cliffords\<close> is not free of randomness: at an angle on
  a midpoint the classification reaches \<open>random.choice\<close> and advances the shared random
  source. What holds is that the outcome (the count returned, or the exception raised) is
  the same for any two states of the random source: no draw changes it.
\<close>

theorem count_non_cliffords_deterministic:
  "fst (count_non_cliffords circ r1) = fst (count_non_cliffords circ r2)"
proof -
  obtain a where a: "fst (count_non_cliffords circ r1) =
     (if \<not> list_all recognised circ then Inl IndexError
      else if rz_angles circ = [] then Inl ValueError
      else Inr (length (filter (\<lambda>a. \<not> clifford_pure a) (rz_angles circ))))"
    using count_non_cliffords_value[of circ r1] by auto
  obtain b where b: "fst (count_non_cliffords circ r2) =
     (if \<not> list_all recognised circ then Inl IndexError
      else if rz_angles circ = [] then Inl ValueError
      else Inr (length (filter (\<lambda>a. \<not> clifford_pure a) (rz_angles circ))))"
    using count_non_cliffords_value[of circ r2] by auto
  show ?thesis unfolding a b ..
qed

text \<open>
  The claim as stated fails on a circuit with one T gate (\<open>rz\<close> angle \<open>\<pi>/4\<close>, on the
  midpoint 0.5): the count is 1, and the call consumes four draws of the random source.
\<close>

theorem count_non_cliffords_randomness_counterexample:
  "count_non_cliffords [ZPow (1 / 4) 0] rng0 = (Inr 1, rng0\<lparr>py_pos := 4\<rparr>)"
proof -
  have s: "ang_scaled (1 / 2 * (pi / 2)) = 1 / 2" by (rule ang_scaled_quarter) simp_all
  have e: "pi / 4 = 1 / 2 * (pi / 2)" by simp
  have m: "at_midpoint (ang_scaled (pi / 4))" unfolding e s by (simp add: at_midpoint_def)
  have i: "is_clifford_angle [Some (pi / 4)] rng0 = (Inr [False], rng0\<lparr>py_pos := 4\<rparr>)"
    unfolding is_clifford_angle_single_tie[OF m] by (simp add: rng0_def)
  show ?thesis
    unfolding count_non_cliffords_def circuit_to_array_eq
    by (simp add: columns_of_def recognised_def encode_col_def gate_name_def gate_parameter_def
        i select_mask_def)
qed

text \<open>
  Claim C4 fails on the code. On a circuit with no \<open>rz\<close> gate (here an X and a CNOT)
  the parameter row handed to the vectorized \<open>_is_clifford_angle\<close> is empty, and
  \<open>np.vectorize\<close> raises ValueError on a size-0 input: no count is returned.
\<close>

theorem count_non_cliffords_no_rz_raises:
  "count_non_cliffords [XPow 1 0, CX 1 0 1] r = (Inl ValueError, r)"
  by (simp add: count_non_cliffords_def circuit_to_array_eq columns_of_def recognised_def
      encode_col_def gate_name_def is_clifford_angle_nil)

section \<open>The sigma options\<close>

text \<open>
  Claim C6, as amended. The options dictionary is rejected exactly when it is non-empty
  and holds neither \<open>sigma_select\<close> nor \<open>sigma_replace\<close>; in every other case each
  sigma that is present is taken and each that is absent becomes 0.5 (other keys are
  ignored, and \<open>sigma_replace\<close> alone is accepted). With no options at all both are
  0.5. A rejection aborts \<open>_map_to_near_clifford\<close> before anything is sampled.
\<close>

theorem sigma_options_amended:
  "sigma_options (PyDict d) =
     (if d \<noteq> [] \<and> map_of d ''sigma_select'' = None \<and> map_of d ''sigma_replace'' = None
      then Inl OptionsException
      else Inr (case map_of d ''sigma_select'' of None \<Rightarrow> 1 / 2 | Some x \<Rightarrow> x,
                case map_of d ''sigma_replace'' of None \<Rightarrow> 1 / 2 | Some y \<Rightarrow> y))
   \<and> sigma_options PyNone = Inr (1 / 2, 1 / 2)
   \<and> (sigma_options (kw_get kw ''additional_options'') = Inl e \<longrightarrow>
        map_to_near_clifford rz_non_cliff all_cliff empty_circuit tot fraction ms mr kw r
          = (Inl e, r))"
  using sigma_options_dict sigma_options_none map_to_near_clifford_options_error by blast

text \<open>
  The amended claim on a dictionary with only an unknown key, on one with
  \<open>sigma_select\<close> alone, and on a call that is rejected.
\<close>

theorem sigma_options_amended_witness:
  "sigma_options (PyDict [(''bogus'', 1)]) = Inl OptionsException
   \<and> sigma_options (PyDict [(''sigma_select'', 3 / 10)]) = Inr (3 / 10, 1 / 2)
   \<and> map_to_near_clifford [] [] [] 0 0 ''random'' ''closest''
        [(''additional_options'', PyDict [(''bogus'', 1)])] rng0 = (Inl OptionsException, rng0)"
proof -
  have a: "sigma_options (PyDict [(''bogus'', 1)]) = Inl OptionsException"
    using sigma_options_amended[of "[(''bogus'', 1)]"] by simp
  have b: "sigma_options (PyDict [(''sigma_select'', 3 / 10)]) = Inr (3 / 10, 1 / 2)"
    using sigma_options_amended[of "[(''sigma_select'', 3 / 10)]"] by simp
  have k: "kw_get [(''additional_options'', PyDict [(''bogus'', 1)])] ''additional_options''
             = PyDict [(''bogus'', 1)]"
    by (simp add: kw_get_def)
  have c: "map_to_near_clifford [] [] [] 0 0 ''random'' ''closest''
        [(''additional_options'', PyDict [(''bogus'', 1)])] rng0 = (Inl OptionsException, rng0)"
    using sigma_options_amended[of "[]" "[(''additional_options'', PyDict [(''bogus'', 1)])]"
        OptionsException "[]" "[]" "[]" 0 0 "''random''" "''closest''" rng0]
    unfolding k using a by simp
  from a b c show ?thesis by simp
qed

text \<open>
  The claim as stated fails: \<open>sigma_replace\<close> alone is accepted (and \<open>sigma_select\<close>
  becomes 0.5), and an unknown key beside \<open>sigma_select\<close> is accepted too.
\<close>

theorem sigma_options_counterexample:
  "sigma_options (PyDict [(''sigma_replace'', 3 / 10)]) = Inr (1 / 2, 3 / 10)
   \<and> sigma_options (PyDict [(''sigma_select'', 3 / 10), (''bogus'', 1)]) = Inr (3 / 10, 1 / 2)"
  by (simp add: sigma_options_def truthy_def defult_sigma_select_def defult_sigma_replace_def)

text \<open>
  Claim C10. The wrapper forwards only \<open>additional_options.get('additional_options')\<close>:
  the sigmas in effect are those resolved from the keyword \<open>additional_options\<close>. When
  the call has no keyword of that name (whatever other keywords it has, such as
  \<open>sigma_select=0.3\<close>), both sigmas are 0.5 and the call behaves exactly as the call
  with no keyword arguments; when the keyword holds a dictionary, the sigmas are resolved
  from that dictionary.
\<close>

theorem additional_options_forwarding:
  "sigma_options (kw_get (forwarded_kwargs kw) ''additional_options'')
     = sigma_options (kw_get kw ''additional_options'')
   \<and> (map_of kw ''additional_options'' = None \<longrightarrow>
        sigma_options (kw_get (forwarded_kwargs kw) ''additional_options'') = Inr (1 / 2, 1 / 2)
        \<and> generate_training_circuits circ n f ms mr kw r
            = generate_training_circuits circ n f ms mr [] r)
   \<and> (map_of kw ''additional_options'' = Some (PyDict d) \<longrightarrow>
        sigma_options (kw_get (forwarded_kwargs kw) ''additional_options'')
          = sigma_options (PyDict d))"
proof (intro conjI impI)
  show "sigma_options (kw_get (forwarded_kwargs kw) ''additional_options'')
     = sigma_options (kw_get kw ''additional_options'')"
    by (simp add: kw_get_forwarded)
next
  assume n: "map_of kw ''additional_options'' = None"
  then have k: "kw_get kw ''additional_options'' = PyNone" by (simp add: kw_get_def)
  show "sigma_options (kw_get (forwarded_kwargs kw) ''additional_options'') = Inr (1 / 2, 1 / 2)"
    by (simp add: kw_get_forwarded k sigma_options_none)
  have "kw_get kw ''additional_options'' = kw_get [] ''additional_options''"
    unfolding k by (simp add: kw_get_def)
  then have "generate_training_circuits circ n f ms mr kw
            = generate_training_circuits circ n f ms mr []"
    by (rule generate_kw)
  then show "generate_training_circuits circ n f ms mr kw r
            = generate_training_circuits circ n f ms mr [] r"
    by (rule arg_cong[where f="\<lambda>g. g r"])
next
  assume "map_of kw ''additional_options'' = Some (PyDict d)"
  then show "sigma_options (kw_get (forwarded_kwargs kw) ''additional_options'')
          = sigma_options (PyDict d)"
    unfolding kw_get_forwarded by (simp add: kw_get_def)
qed

text \<open>
  Claim C10 on \<open>sigma_select=0.3\<close> passed directly (ignored) and on
  \<open>additional_options={'sigma_select': 0.3}\<close> (honoured).
\<close>

theorem additional_options_forwarding_witness:
  "sigma_options (kw_get (forwarded_kwargs [(''sigma_select'', PyFloat (3 / 10))])
       ''additional_options'') = Inr (1 / 2, 1 / 2)
   \<and> generate_training_circuits [ZPow (3 / 10) 0] 1 0 ''probabilistic'' ''probabilistic''
        [(''sigma_select'', PyFloat (3 / 10))] rng0
      = generate_training_circuits [ZPow (3 / 10) 0] 1 0 ''probabilistic'' ''probabilistic'' [] rng0
   \<and> sigma_options (kw_get (forwarded_kwargs
         [(''additional_options'', PyDict [(''sigma_select'', 3 / 10)])]) ''additional_options'')
      = Inr (3 / 10, 1 / 2)"
proof -
  have n: "map_of [(''sigma_select'', PyFloat (3 / 10))] ''additional_options'' = None" by simp
  have s: "map_of [(''additional_options'', PyDict [(''sigma_select'', 3 / 10)])]
             ''additional_options'' = Some (PyDict [(''sigma_select'', 3 / 10)])" by simp
  note a = additional_options_forwarding[of "[(''sigma_select'', PyFloat (3 / 10))]"
        "[ZPow (3 / 10) 0]" 1 0 "''probabilistic''" "''probabilistic''" rng0,
        THEN conjunct2, THEN conjunct1, rule_format, OF n]
  note b = additional_options_forwarding[of
        "[(''additional_options'', PyDict [(''sigma_select'', 3 / 10)])]"
        "[]" 0 0 "''x''" "''x''" rng0 "[(''sigma_select'', 3 / 10)]",
        THEN conjunct2, THEN conjunct2, rule_format, OF s]
  have c: "sigma_options (PyDict [(''sigma_select'', 3 / 10)]) = Inr (3 / 10, 1 / 2)"
    by (simp add: sigma_options_dict)
  from a b[unfolded c] show ?thesis by (intro conjI) (erule conjunct1, erule conjunct2, assumption)
qed

section \<open>The angle-to-probability weight\<close>

text \<open>
  Claim C1, as amended. For every angle and positive \<open>\<sigma>\<close>, \<open>_angle_to_probabilities\<close>
  returns one number: the sum of the four unnormalized weights
  \<open>w_k = exp(-(d_k/\<sigma>)^2)\<close>, where \<open>d_k\<close> is the distance between \<open>diag(1, e^{i\<theta>})\<close>
  and the Clifford phase gate \<open>diag(1, i^k)\<close>, \<open>k = 1..4\<close>. The sum is not normalized;
  the caller divides the per-gate values by their total.
\<close>

theorem angle_to_probabilities_amended:
  "0 < sigma \<Longrightarrow>
     angle_to_probabilities_body theta sigma = sum_list (spec_angle_distance_weights theta sigma)
     \<and> length (spec_angle_distance_weights theta sigma) = 4"
  by (simp add: angle_to_probabilities_sum spec_angle_distance_weights_def)

text \<open>The amended claim at \<open>\<theta> = 0\<close>, \<open>\<sigma> = 1\<close>: the weights are \<open>e^-2, e^-4, e^-2, 1\<close>.\<close>

theorem angle_to_probabilities_amended_witness:
  "angle_to_probabilities_body 0 1 = sum_list [exp (- 2), exp (- 4), exp (- 2), 1]
   \<and> length (spec_angle_distance_weights 0 1) = 4"
  using angle_to_probabilities_amended[of 1 0] unfolding weights_zero_one by simp

text \<open>
  The claim as stated fails at \<open>\<theta> = 0\<close>, \<open>\<sigma> = 1\<close>: the number returned is none of the
  four weights.
\<close>

theorem angle_to_probabilities_counterexample:
  "angle_to_probabilities_body 0 1 \<notin> set (spec_angle_distance_weights 0 1)"
proof -
  have p: "0 < exp (- 2 :: real)" "0 < exp (- 4 :: real)" by simp_all
  have v: "angle_to_probabilities_body 0 1 = 1 + 2 * exp (- 2) + exp (- 4)"
    by (simp add: angle_to_probabilities_sum weights_zero_one)
  have "angle_to_probabilities_body 0 1 \<noteq> exp (- 2)" unfolding v using p by linarith
  moreover have "angle_to_probabilities_body 0 1 \<noteq> exp (- 4)" unfolding v using p by linarith
  moreover have "angle_to_probabilities_body 0 1 \<noteq> 1" unfolding v using p by linarith
  ultimately show ?thesis unfolding weights_zero_one by simp
qed

section \<open>The generator\<close>

text \<open>
  Claim C5 fails on the code. With \<open>fraction_non_clifford = 1.0\<close> no column is selected,
  so the empty parameter row of the selection reaches the vectorized
  \<open>_closest_clifford\<close>, and \<open>np.vectorize\<close> raises ValueError on a size-0 input: the call
  on a circuit with one non-Clifford \<open>rz\<close> gate returns no circuit.
\<close>

theorem generate_fraction_one_raises:
  "generate_training_circuits [ZPow (3 / 10) 0] 1 1 ''random'' ''closest'' [] r
     = (Inl ValueError, classify_rng [ZPow (3 / 10) 0] r)"
proof -
  have a: "list_all recognised [ZPow (3 / 10) 0]" by (simp add: recognised_def)
  have b: "rz_angles [ZPow (3 / 10) 0] \<noteq> []" by (simp add: rz_angles_def)
  have f: "forwarded_kwargs [] = []" by (simp add: forwarded_kwargs_def)
  show ?thesis unfolding generate_preamble f using a b
    by (simp add: map_to_near_clifford_fraction_one)
qed


text \<open>
  Claim C3, as amended. An invalid \<open>method_select\<close> (with acceptable options) makes
  \<open>_map_to_near_clifford\<close> raise with the random source untouched. An invalid
  \<open>method_replace\<close> beside a valid \<open>method_select\<close> raises only after the selection has
  been sampled: the random source is in its state after the selection, and no replacement
  is sampled. In both cases a call of \<open>generate_training_circuits\<close> asking for at least
  one circuit ends in an exception and returns no circuits.
\<close>

theorem invalid_method_aborts:
  "(ms \<noteq> ''random'' \<and> ms \<noteq> ''probabilistic''
      \<and> sigma_options (kw_get kw ''additional_options'') = Inr s \<longrightarrow>
        map_to_near_clifford a b c t f ms mr kw r = (Inl MethodSelectException, r))
   \<and> (mr \<noteq> ''closest'' \<and> mr \<noteq> ''random'' \<and> mr \<noteq> ''probabilistic''
      \<and> sigma_options (kw_get kw ''additional_options'') = Inr (ss, sr)
      \<and> select_columns ms a t (py_int (f * real t)) ss r = (Inr cols, r1)
      \<and> take_columns a cols = Inr sel \<longrightarrow>
        map_to_near_clifford a b c t f ms mr kw r = (Inl MethodReplaceException, r1))
   \<and> (0 < n \<and> ((ms \<noteq> ''random'' \<and> ms \<noteq> ''probabilistic'')
           \<or> (mr \<noteq> ''closest'' \<and> mr \<noteq> ''random'' \<and> mr \<noteq> ''probabilistic'')) \<longrightarrow>
        (\<exists>e r'. generate_training_circuits circ n f ms mr kw r = (Inl e, r')))"
proof (intro conjI impI)
  assume "ms \<noteq> ''random'' \<and> ms \<noteq> ''probabilistic''
      \<and> sigma_options (kw_get kw ''additional_options'') = Inr s"
  then show "map_to_near_clifford a b c t f ms mr kw r = (Inl MethodSelectException, r)"
    by (elim conjE) (rule map_invalid_select)
next
  assume "mr \<noteq> ''closest'' \<and> mr \<noteq> ''random'' \<and> mr \<noteq> ''probabilistic''
      \<and> sigma_options (kw_get kw ''additional_options'') = Inr (ss, sr)
      \<and> select_columns ms a t (py_int (f * real t)) ss r = (Inr cols, r1)
      \<and> take_columns a cols = Inr sel"
  then show "map_to_near_clifford a b c t f ms mr kw r = (Inl MethodReplaceException, r1)"
    by (elim conjE) (rule map_invalid_replace)
next
  assume "0 < n \<and> ((ms \<noteq> ''random'' \<and> ms \<noteq> ''probabilistic'')
           \<or> (mr \<noteq> ''closest'' \<and> mr \<noteq> ''random'' \<and> mr \<noteq> ''probabilistic''))"
  then show "\<exists>e r'. generate_training_circuits circ n f ms mr kw r = (Inl e, r')"
    by (elim conjE) (rule generate_invalid_fails)
qed


text \<open>
  The amended claim on an invalid selection method, on an invalid replacement method after
  one selection draw, and on a whole call.
\<close>

theorem invalid_method_aborts_witness:
  "map_to_near_clifford [] [] [] 0 0 ''bogus'' ''closest'' [] rng0 = (Inl MethodSelectException, rng0)
   \<and> map_to_near_clifford [encode_col 0 (ZPow (3 / 10) 0)] [] [] 1 0 ''random'' ''bogus'' [] rng0
       = (Inl MethodReplaceException, rng0\<lparr>py_pos := Suc (py_pos rng0)\<rparr>)
   \<and> (\<exists>e r'. generate_training_circuits [ZPow (3 / 10) 0] 1 0 ''bogus'' ''closest'' [] rng0
                = (Inl e, r'))"
proof -
  have b1: "''bogus'' \<noteq> ''random'' \<and> ''bogus'' \<noteq> ''probabilistic''
      \<and> sigma_options (kw_get [] ''additional_options'') = Inr (1 / 2, 1 / 2)"
    by (simp add: sigma_options_empty_kw)
  note w1 = invalid_method_aborts[of "''bogus''" "[]" "(1 / 2, 1 / 2)" "[]" "[]" "[]" 0 0
      "''closest''" rng0, THEN conjunct1, rule_format, OF b1]
  have p: "py_int (0 * real (1::nat)) = 0" by (simp add: py_int_def)
  have b2: "''bogus'' \<noteq> ''closest'' \<and> ''bogus'' \<noteq> ''random'' \<and> ''bogus'' \<noteq> ''probabilistic''
      \<and> sigma_options (kw_get [] ''additional_options'') = Inr (1 / 2, 1 / 2)
      \<and> select_columns ''random'' [encode_col 0 (ZPow (3 / 10) 0)] 1 (py_int (0 * real (1::nat))) (1 / 2) rng0
           = (Inr [0], rng0\<lparr>py_pos := Suc (py_pos rng0)\<rparr>)
      \<and> take_columns [encode_col 0 (ZPow (3 / 10) 0)] [0] = Inr [encode_col 0 (ZPow (3 / 10) 0)]"
    unfolding p by (simp add: sigma_options_empty_kw select_random_single take_columns_def)
  note w2 = invalid_method_aborts[of "''random''" "[]" _ "[encode_col 0 (ZPow (3 / 10) 0)]" "[]" "[]" 1 0
      "''bogus''" rng0 "1 / 2" "1 / 2" "[0]" "rng0\<lparr>py_pos := Suc (py_pos rng0)\<rparr>"
      "[encode_col 0 (ZPow (3 / 10) 0)]",
      THEN conjunct2, THEN conjunct1, rule_format, OF b2]
  have b3: "(0::int) < 1 \<and> ((''bogus'' \<noteq> ''random'' \<and> ''bogus'' \<noteq> ''probabilistic'')
           \<or> (''closest'' \<noteq> ''closest'' \<and> ''closest'' \<noteq> ''random'' \<and> ''closest'' \<noteq> ''probabilistic''))"
    by simp
  note w3 = invalid_method_aborts[where ms="''bogus''" and mr="''closest''" and n=1
      and circ="[ZPow (3 / 10) 0]" and f=0 and kw="[]" and r=rng0,
      THEN conjunct2, THEN conjunct2, rule_format, OF b3]
  from w1 w2 w3 show ?thesis by (intro conjI)
qed


text \<open>
  The claim as stated fails for \<open>method_replace = 'bogus'\<close> with
  \<open>method_select = 'random'\<close>: the exception is raised after \<open>random.sample\<close> has drawn,
  the position of the random source having moved from 0 to 1.
\<close>

theorem invalid_method_replace_counterexample:
  "generate_training_circuits [ZPow (3 / 10) 0] 1 0 ''random'' ''bogus'' [] rng0
     = (Inl MethodReplaceException, rng0\<lparr>py_pos := 1\<rparr>)
   \<and> py_pos rng0 = 0"
proof -
  have a: "list_all recognised [ZPow (3 / 10) 0]" by (simp add: recognised_def)
  have b: "rz_angles [ZPow (3 / 10) 0] \<noteq> []" by (simp add: rz_angles_def)
  have f: "forwarded_kwargs [] = []" by (simp add: forwarded_kwargs_def)
  have p: "py_int (0 * real (Suc 0)) = 0" by (simp add: py_int_def)
  have m: "map_to_near_clifford [encode_col 0 (ZPow (3 / 10) 0)] [] [] (Suc 0) 0 ''random'' ''bogus'' [] rng0
       = (Inl MethodReplaceException, rng0\<lparr>py_pos := Suc (py_pos rng0)\<rparr>)"
    by (rule map_invalid_replace[where ss="1 / 2" and sr="1 / 2" and cols="[0]"
          and sel="[encode_col 0 (ZPow (3 / 10) 0)]"])
      (simp_all add: sigma_options_empty_kw py_int_def select_random_single take_columns_def)
  have g: "generate_training_circuits [ZPow (3 / 10) 0] 1 0 ''random'' ''bogus'' [] rng0
     = (Inl MethodReplaceException, rng0\<lparr>py_pos := Suc (py_pos rng0)\<rparr>)"
    unfolding generate_preamble f
      cols_single_non_clifford[OF angle_three_tenths(2)] classify_single[OF angle_three_tenths(1)]
    using a b by (simp add: m)
  show ?thesis unfolding g by (simp add: rng0_def)
qed

text \<open>
  Claim C2. Whenever \<open>generate_training_circuits\<close> returns, every circuit it returns is
  the replay, in ascending \<open>order\<close>, of a table whose \<open>order\<close> row is exactly
  \<open>0, 1, ..., n-1\<close> (the original index set, strictly increasing) and whose columns are
  the encoder's columns of the input circuit, except that an \<open>rz\<close> column may carry a new
  angle. Hence the output has as many instructions as the input, and position by position
  the same gate kind and the same qubit operands: a gate that is not replaced stays where
  it was, and a replaced gate stays where it was with only its angle changed. (The output
  sequence is the sequence of appended instructions.)
\<close>

theorem training_circuits_keep_order:
  "generate_training_circuits circ n f ms mr kw r = (Inr (circuits, origs, repls), r') \<Longrightarrow>
   out \<in> set circuits \<Longrightarrow>
     length out = length circ
     \<and> map gate_name out = map gate_name circ
     \<and> map op_qubits out = map op_qubits circ
     \<and> (\<exists>tab. map order tab = [0..<length circ] \<and> list_all (stems_from circ) tab
           \<and> array_to_circuit tab [] = Inr out)"
proof -
  assume run: "generate_training_circuits circ n f ms mr kw r = (Inr (circuits, origs, repls), r')"
    and out: "out \<in> set circuits"
  from run have rec: "list_all recognised circ"
    unfolding generate_preamble by (auto split: if_splits)
  from run have tl: "training_loop (nat n)
             (map_to_near_clifford (non_cliff_cols circ) (cliff_cols circ) []
                (length (non_cliff_cols circ)) f ms mr (forwarded_kwargs kw))
             ([], [], []) (classify_rng circ r) = (Inr (circuits, origs, repls), r')"
    unfolding generate_preamble by (auto split: if_splits)
  from training_loop_circuits[OF tl out] obtain r1 o1 a1 r2 where
    m: "map_to_near_clifford (non_cliff_cols circ) (cliff_cols circ) []
                (length (non_cliff_cols circ)) f ms mr (forwarded_kwargs kw) r1
          = (Inr (out, o1, a1), r2)"
    by auto
  from map_to_near_clifford_preserves[OF m rec]
  have p: "length out = length circ"
    "\<forall>i<length circ. gate_name (out ! i) = gate_name (circ ! i)
               \<and> op_qubits (out ! i) = op_qubits (circ ! i)"
    "\<exists>tab. map order tab = [0..<length circ] \<and> list_all (stems_from circ) tab
           \<and> array_to_circuit tab [] = Inr out"
    by simp_all
  have "map gate_name out = map gate_name circ" using p by (intro nth_equalityI) simp_all
  moreover have "map op_qubits out = map op_qubits circ" using p by (intro nth_equalityI) simp_all
  ultimately show ?thesis using p(1,3) by simp
qed

text \<open>
  Claim C2 on a run that succeeds: an \<open>rz\<close> gate of angle \<open>0.3\<pi>\<close> followed by a CNOT,
  one training circuit, every non-Clifford gate replaced by its closest Clifford angle.
\<close>

theorem training_circuits_keep_order_witness:
  "generate_training_circuits [ZPow (3 / 10) 0, CX 1 0 1] 1 0 ''random'' ''closest'' [] rng0
     = (Inr ([[ZPow (1 / 2) 0, CX 1 0 1]], [[Some (3 / 10 * pi)]], [[Some (pi / 2)]]),
        rng0\<lparr>py_pos := Suc (py_pos rng0)\<rparr>)
   \<and> map gate_name [ZPow (1 / 2) 0, CX 1 0 1] = map gate_name [ZPow (3 / 10) 0, CX 1 0 1]
   \<and> map op_qubits [ZPow (1 / 2) 0, CX 1 0 1] = map op_qubits [ZPow (3 / 10) 0, CX 1 0 1]"
proof -
  have i: "[ZPow (1 / 2) 0, CX 1 0 1] \<in> set [[ZPow (1 / 2) 0, CX 1 0 1]]" by simp
  from training_circuits_keep_order[OF witness_run i] witness_run show ?thesis by simp
qed

end
